theory Spec2Isabelle
  imports Complex_Main
begin

section \<open>Orbital-optimized MP2: the arrays and the integral transform\<close>

text \<open>
  The notebook \<^verbatim>\<open>10a_orbital-optimized-mp2.ipynb\<close> works on NumPy arrays of floats.
  Here a float is an exact real number, and an array of shape \<open>(n, n)\<close> or
  \<open>(n, n, n, n)\<close> is its index function on \<open>nat\<close>; the code only ever reads the indices
  below the shape, and every \<^verbatim>\<open>np.einsum\<close> is the sum over \<open>{..<n}\<close> of its summed
  letters. The slices \<^verbatim>\<open>o = slice(None, nocc)\<close> and \<^verbatim>\<open>v = slice(nocc, None)\<close> select the
  indices \<open>i < nocc\<close> and \<open>nocc + a\<close> with \<open>a < nso - nocc\<close>.
\<close>

type_synonym vec = "nat \<Rightarrow> real"

type_synonym mat = "nat \<Rightarrow> nat \<Rightarrow> real"

type_synonym ten4 = "nat \<Rightarrow> nat \<Rightarrow> nat \<Rightarrow> nat \<Rightarrow> real"

text \<open>
  \<^verbatim>\<open>
  def ao_to_mo(hao, C):
      return np.einsum('pQ, pP -> PQ',
             np.einsum('pq, qQ -> pQ', hao, C), C)
  \<close>
\<close>

definition ao_to_mo :: "nat \<Rightarrow> mat \<Rightarrow> mat \<Rightarrow> mat" where
  "ao_to_mo n hao C = (\<lambda>P Q. \<Sum>p<n. (\<Sum>q<n. hao p q * C q Q) * C p P)"

text \<open>
  \<^verbatim>\<open>
  def ao_to_mo_tei(gao, C):
      return np.einsum('pQRS, pP -> PQRS',
             np.einsum('pqRS, qQ -> pQRS',
             np.einsum('pqrS, rR -> pqRS',
             np.einsum('pqrs, sS -> pqrS', gao, C), C), C), C)
  \<close>
  One leg at a time, innermost call first.
\<close>

definition ao_to_mo_tei :: "nat \<Rightarrow> ten4 \<Rightarrow> mat \<Rightarrow> ten4" where
  "ao_to_mo_tei n gao C =
     (let g1 = (\<lambda>p q r S. \<Sum>s<n. gao p q r s * C s S);
          g2 = (\<lambda>p q R S. \<Sum>r<n. g1 p q r S * C r R);
          g3 = (\<lambda>p Q R S. \<Sum>q<n. g2 p q R S * C q Q)
      in (\<lambda>P Q R S. \<Sum>p<n. g3 p Q R S * C p P))"

text \<open>The two pair antisymmetries of a four-index array, on the indices below \<open>n\<close>.\<close>

definition antisym_below :: "nat \<Rightarrow> ten4 \<Rightarrow> bool" where
  "antisym_below n g \<longleftrightarrow>
     (\<forall>p\<in>{..<n}. \<forall>q\<in>{..<n}. \<forall>r\<in>{..<n}. \<forall>s\<in>{..<n}.
        g p q r s = - g q p r s \<and> g p q r s = - g p q s r)"

text \<open>The same on every index: what the arrays built by the loop satisfy.\<close>

definition antisym :: "ten4 \<Rightarrow> bool" where
  "antisym g \<longleftrightarrow> (\<forall>p q r s. g p q r s = - g q p r s \<and> g p q r s = - g p q s r)"

section \<open>The stages of one iteration\<close>

text \<open>
  NumPy does not raise on a division by zero: it warns, stores \<^verbatim>\<open>inf\<close> or \<^verbatim>\<open>nan\<close>, and
  the notebook goes on with these values in its arrays. The reals have no such values, so
  a stage that divides returns \<open>Inl NonFinite\<close> as soon as one denominator of the array is
  zero, and the model follows the run no further; \<open>NonFinite\<close> marks where the model ends,
  it is neither an exception nor a stop of the code, and nothing is claimed about a run
  beyond it. \<open>ValueError\<close> is the
  exception of \<^verbatim>\<open>np.zeros\<close> on a negative dimension.
\<close>

datatype stop = ValueError | NonFinite

text \<open>
  \<^verbatim>\<open>
  opdm_ref = np.zeros((nso, nso))
  opdm_ref[o, o] = np.identity(nocc)
  \<close>
\<close>

definition opdm_ref :: "nat \<Rightarrow> mat" where
  "opdm_ref nocc = (\<lambda>p q. if p < nocc \<and> q < nocc \<and> p = q then 1 else 0)"

text \<open>
  \<^verbatim>\<open>
  f = hmo + np.einsum('piqi -> pq', gmo[:, o, :, o])
  fprime = f.copy()
  np.fill_diagonal(fprime, 0)
  eps = f.diagonal()
  \<close>
\<close>

definition build_fock :: "nat \<Rightarrow> mat \<Rightarrow> ten4 \<Rightarrow> mat" where
  "build_fock nocc hmo gmo = (\<lambda>p q. hmo p q + (\<Sum>i<nocc. gmo p i q i))"

definition fill_diagonal_0 :: "mat \<Rightarrow> mat" where
  "fill_diagonal_0 f = (\<lambda>p q. if p = q then 0 else f p q)"

definition diagonal :: "mat \<Rightarrow> vec" where
  "diagonal f = (\<lambda>p. f p p)"

text \<open>
  \<^verbatim>\<open>
  t1 = gmo[v, v, o, o]
  t2 = np.einsum('ac,cbij -> abij', fprime[v, v], t_amp)
  t3 = np.einsum('ki,abkj -> abij', fprime[o, o], t_amp)
  t_amp = t1 + t2 - t2.transpose((1, 0, 2, 3)) \
          - t3 + t3.transpose((0, 1, 3, 2))
  \<close>
\<close>

definition t_amp_numerator :: "nat \<Rightarrow> nat \<Rightarrow> mat \<Rightarrow> ten4 \<Rightarrow> ten4 \<Rightarrow> ten4" where
  "t_amp_numerator nso nocc fprime gmo t_amp =
     (let nvirt = nso - nocc;
          t1 = (\<lambda>a b i j. gmo (nocc + a) (nocc + b) i j);
          t2 = (\<lambda>a b i j. \<Sum>c<nvirt. fprime (nocc + a) (nocc + c) * t_amp c b i j);
          t3 = (\<lambda>a b i j. \<Sum>k<nocc. fprime k i * t_amp a b k j)
      in (\<lambda>a b i j. t1 a b i j + t2 a b i j - t2 b a i j - t3 a b i j + t3 a b j i))"

text \<open>
  \<^verbatim>\<open>
  t_amp /= (- eps[v, x, x, x] - eps[x, v, x, x] +
            eps[x, x, o, x] + eps[x, x, x, o])
  \<close>
\<close>

definition t_amp_denominator :: "nat \<Rightarrow> vec \<Rightarrow> ten4" where
  "t_amp_denominator nocc eps =
     (\<lambda>a b i j. - eps (nocc + a) - eps (nocc + b) + eps i + eps j)"

definition update_t_amp :: "nat \<Rightarrow> nat \<Rightarrow> mat \<Rightarrow> vec \<Rightarrow> ten4 \<Rightarrow> ten4 \<Rightarrow> stop + ten4" where
  "update_t_amp nso nocc fprime eps gmo t_amp =
     (let nvirt = nso - nocc;
          num = t_amp_numerator nso nocc fprime gmo t_amp;
          den = t_amp_denominator nocc eps
      in if \<exists>a\<in>{..<nvirt}. \<exists>b\<in>{..<nvirt}. \<exists>i\<in>{..<nocc}. \<exists>j\<in>{..<nocc}. den a b i j = 0
         then Inl NonFinite
         else Inr (\<lambda>a b i j. num a b i j / den a b i j))"

text \<open>
  \<^verbatim>\<open>
  opdm_corr[v, v] = (1/2)*np.einsum('ijac,bcij -> ba', t_amp.T, t_amp)
  opdm_corr[o, o] = -(1/2)*np.einsum('jkab,abik -> ji', t_amp.T, t_amp)
  opdm = opdm_corr + opdm_ref
  \<close>
  \<^verbatim>\<open>t_amp.T\<close> reverses the four axes: \<^verbatim>\<open>t_amp.T[i, j, a, c]\<close> is \<^verbatim>\<open>t_amp[c, a, j, i]\<close>.
  \<^verbatim>\<open>opdm_corr\<close> is allocated once, before the loop; the two assignments overwrite its
  virtual-virtual and occupied-occupied blocks and leave the rest as it was.
\<close>

definition build_opdm_corr :: "nat \<Rightarrow> nat \<Rightarrow> ten4 \<Rightarrow> mat \<Rightarrow> mat" where
  "build_opdm_corr nso nocc t_amp opdm_corr =
     (let nvirt = nso - nocc;
          vv = (\<lambda>b a. (1/2) * (\<Sum>i<nocc. \<Sum>j<nocc. \<Sum>c<nvirt. t_amp c a j i * t_amp b c i j));
          oo = (\<lambda>j i. - (1/2) * (\<Sum>k<nocc. \<Sum>a<nvirt. \<Sum>b<nvirt. t_amp b a k j * t_amp a b i k))
      in (\<lambda>p q. if p < nocc \<and> q < nocc then oo p q
                 else if nocc \<le> p \<and> nocc \<le> q then vv (p - nocc) (q - nocc)
                 else opdm_corr p q))"

definition build_opdm :: "nat \<Rightarrow> mat \<Rightarrow> mat" where
  "build_opdm nocc opdm_corr = (\<lambda>p q. opdm_corr p q + opdm_ref nocc p q)"

text \<open>
  \<^verbatim>\<open>
  tpdm_corr[v, v, o, o] = t_amp
  tpdm_corr[o, o, v, v] = t_amp.T
  tpdm2 = np.einsum('rp,sq -> rspq', opdm_corr, opdm_ref)
  tpdm3 = np.einsum('rp,sq->rspq', opdm_ref, opdm_ref)
  tpdm = tpdm_corr \
      + tpdm2 - tpdm2.transpose((1, 0, 2, 3)) \
      - tpdm2.transpose((0, 1, 3, 2)) + tpdm2.transpose((1, 0, 3, 2)) \
      + tpdm3 - tpdm3.transpose((1, 0, 2, 3))
  \<close>
  \<^verbatim>\<open>tpdm_corr\<close> too is allocated once and only these two blocks are ever written.
\<close>

definition build_tpdm_corr :: "nat \<Rightarrow> ten4 \<Rightarrow> ten4 \<Rightarrow> ten4" where
  "build_tpdm_corr nocc t_amp tpdm_corr =
     (\<lambda>p q r s. if p < nocc \<and> q < nocc \<and> nocc \<le> r \<and> nocc \<le> s
                   then t_amp (s - nocc) (r - nocc) q p
                 else if nocc \<le> p \<and> nocc \<le> q \<and> r < nocc \<and> s < nocc
                   then t_amp (p - nocc) (q - nocc) r s
                 else tpdm_corr p q r s)"

definition build_tpdm :: "nat \<Rightarrow> ten4 \<Rightarrow> mat \<Rightarrow> ten4" where
  "build_tpdm nocc tpdm_corr opdm_corr =
     (let tpdm2 = (\<lambda>r s p q. opdm_corr r p * opdm_ref nocc s q);
          tpdm3 = (\<lambda>r s p q. opdm_ref nocc r p * opdm_ref nocc s q)
      in (\<lambda>r s p q. tpdm_corr r s p q
                     + tpdm2 r s p q - tpdm2 s r p q
                     - tpdm2 r s q p + tpdm2 s r q p
                     + tpdm3 r s p q - tpdm3 s r p q))"

text \<open>
  \<^verbatim>\<open>
  F = np.einsum('pr,rq->pq', hmo, opdm) + (1/2) * np.einsum('prst,stqr -> pq', gmo, tpdm)
  X[v, o] = ((F - F.T)[v, o])/(- eps[v, x] + eps[x, o])
  \<close>
  \<^verbatim>\<open>X\<close> is allocated once as zeros; only its virtual-occupied block is ever written.
\<close>

definition generalized_fock :: "nat \<Rightarrow> mat \<Rightarrow> ten4 \<Rightarrow> mat \<Rightarrow> ten4 \<Rightarrow> mat" where
  "generalized_fock nso hmo gmo opdm tpdm =
     (\<lambda>p q. (\<Sum>r<nso. hmo p r * opdm r q)
            + (1/2) * (\<Sum>r<nso. \<Sum>s<nso. \<Sum>t<nso. gmo p r s t * tpdm s t q r))"

definition orbital_gradient :: "nat \<Rightarrow> mat \<Rightarrow> mat" where
  "orbital_gradient nocc F = (\<lambda>a i. F (nocc + a) i - F i (nocc + a))"

definition update_X :: "nat \<Rightarrow> nat \<Rightarrow> mat \<Rightarrow> vec \<Rightarrow> mat \<Rightarrow> stop + mat" where
  "update_X nso nocc F eps X =
     (let nvirt = nso - nocc;
          den = (\<lambda>a i. - eps (nocc + a) + eps i)
      in if \<exists>a\<in>{..<nvirt}. \<exists>i\<in>{..<nocc}. den a i = 0
         then Inl NonFinite
         else Inr (\<lambda>p q. if nocc \<le> p \<and> q < nocc
                          then orbital_gradient nocc F (p - nocc) q / den (p - nocc) q
                          else X p q))"

text \<open>
  The matrix product of \<^verbatim>\<open>C = C.dot(U)\<close> and the identity matrix, on \<open>n \<times> n\<close> arrays.
\<close>

definition mat_mul :: "nat \<Rightarrow> mat \<Rightarrow> mat \<Rightarrow> mat" where
  "mat_mul n A B = (\<lambda>i j. \<Sum>k<n. A i k * B k j)"

definition mat_id :: "mat" where
  "mat_id = (\<lambda>i j. if i = j then 1 else 0)"

text \<open>The powers of an \<open>n \<times> n\<close> matrix, for the exponential series.\<close>

fun mat_pow :: "nat \<Rightarrow> mat \<Rightarrow> nat \<Rightarrow> mat" where
  "mat_pow n A 0 = mat_id"
| "mat_pow n A (Suc k) = mat_mul n A (mat_pow n A k)"

text \<open>
  Modelled from the spec: \<^verbatim>\<open>la.expm\<close> is SciPy's routine and no code of the notebook.
  The specification has \<open>U = matrix-exponential(X - X\<^sup>T)\<close>, mathematically always
  well-defined; it is taken as the exponential series \<open>\<Sum>k. A\<^sup>k / k!\<close> of the \<open>n \<times> n\<close>
  matrix, entry by entry, in exact arithmetic.
\<close>

definition expm :: "nat \<Rightarrow> mat \<Rightarrow> mat" where
  "expm n A = (\<lambda>i j. \<Sum>k. mat_pow n A k i j / fact k)"

text \<open>\<^verbatim>\<open>U = la.expm(X - X.T)\<close>\<close>

definition rotation_operator :: "nat \<Rightarrow> mat \<Rightarrow> mat" where
  "rotation_operator nso X = expm nso (\<lambda>p q. X p q - X q p)"

text \<open>
  \<^verbatim>\<open>
  E_OMP2 = E_nuc + np.einsum('pq,qp ->', hmo, opdm) + \
           (1/4)*np.einsum('pqrs,rspq ->', gmo, tpdm)
  \<close>
\<close>

definition omp2_energy :: "nat \<Rightarrow> real \<Rightarrow> mat \<Rightarrow> ten4 \<Rightarrow> mat \<Rightarrow> ten4 \<Rightarrow> real" where
  "omp2_energy nso E_nuc hmo gmo opdm tpdm =
     E_nuc + (\<Sum>p<nso. \<Sum>q<nso. hmo p q * opdm q p)
           + (1/4) * (\<Sum>p<nso. \<Sum>q<nso. \<Sum>r<nso. \<Sum>s<nso. gmo p q r s * tpdm r s p q)"

section \<open>The loop\<close>

text \<open>
  The arrays that exist when the loop starts and are carried from one iteration to the
  next, and the ones an iteration computes on the way.
\<close>

record omp2_state =
  var_C :: mat
  var_hmo :: mat
  var_gmo :: ten4
  var_t_amp :: ten4
  var_opdm_corr :: mat
  var_tpdm_corr :: ten4
  var_X :: mat

record omp2_locals =
  loc_opdm :: mat
  loc_tpdm :: ten4
  loc_F :: mat
  loc_U :: mat
  loc_E_OMP2 :: real

text \<open>
  \<^verbatim>\<open>
  hmo = ao_to_mo(hao, C)
  gmo = ao_to_mo_tei(gao, C)
  t_amp = np.zeros((nvirt, nvirt, nocc, nocc))
  opdm_corr = np.zeros((nso, nso))
  tpdm_corr = np.zeros((nso, nso, nso, nso))
  X = np.zeros((nso, nso))
  \<close>
  with \<^verbatim>\<open>nvirt = nso - nocc\<close>, which \<^verbatim>\<open>np.zeros\<close> refuses when it is negative.
\<close>

definition omp2_init :: "nat \<Rightarrow> nat \<Rightarrow> mat \<Rightarrow> ten4 \<Rightarrow> mat \<Rightarrow> stop + omp2_state" where
  "omp2_init nso nocc hao gao C0 =
     (if nso < nocc then Inl ValueError
      else Inr \<lparr>var_C = C0,
                var_hmo = ao_to_mo nso hao C0,
                var_gmo = ao_to_mo_tei nso gao C0,
                var_t_amp = (\<lambda>a b i j. 0),
                var_opdm_corr = (\<lambda>p q. 0),
                var_tpdm_corr = (\<lambda>p q r s. 0),
                var_X = (\<lambda>p q. 0)\<rparr>)"

text \<open>
  The body of the \<^verbatim>\<open>for\<close> loop, from the Fock build to the energy, before the
  convergence test.
\<close>

definition omp2_iteration ::
  "nat \<Rightarrow> nat \<Rightarrow> mat \<Rightarrow> ten4 \<Rightarrow> real \<Rightarrow> omp2_state \<Rightarrow> stop + (omp2_state \<times> omp2_locals)" where
  "omp2_iteration nso nocc hao gao E_nuc s =
     (let f = build_fock nocc (var_hmo s) (var_gmo s);
          fprime = fill_diagonal_0 f;
          eps = diagonal f
      in case update_t_amp nso nocc fprime eps (var_gmo s) (var_t_amp s) of
           Inl e \<Rightarrow> Inl e
         | Inr t_amp \<Rightarrow>
            (let opdm_corr = build_opdm_corr nso nocc t_amp (var_opdm_corr s);
                 opdm = build_opdm nocc opdm_corr;
                 tpdm_corr = build_tpdm_corr nocc t_amp (var_tpdm_corr s);
                 tpdm = build_tpdm nocc tpdm_corr opdm_corr;
                 F = generalized_fock nso (var_hmo s) (var_gmo s) opdm tpdm
             in case update_X nso nocc F eps (var_X s) of
                  Inl e \<Rightarrow> Inl e
                | Inr X \<Rightarrow>
                   (let U = rotation_operator nso X;
                        C = mat_mul nso (var_C s) U;
                        hmo = ao_to_mo nso hao C;
                        gmo = ao_to_mo_tei nso gao C;
                        E_OMP2 = omp2_energy nso E_nuc hmo gmo opdm tpdm
                    in Inr (\<lparr>var_C = C, var_hmo = hmo, var_gmo = gmo, var_t_amp = t_amp,
                              var_opdm_corr = opdm_corr, var_tpdm_corr = tpdm_corr,
                              var_X = X\<rparr>,
                            \<lparr>loc_opdm = opdm, loc_tpdm = tpdm, loc_F = F, loc_U = U,
                              loc_E_OMP2 = E_OMP2\<rparr>))))"

text \<open>
  \<^verbatim>\<open>
  E_OMP2_old = 0.0
  for iteration in range(MAXITER):
      ...                                   # the body: new arrays and E_OMP2
      if (abs(E_OMP2-E_OMP2_old)) < E_conv:
          break
      E_OMP2_old = E_OMP2
  \<close>
  The loop is written over any body that returns the carried state and the energy.
  What the loop leaves behind are its variables: the carried state, \<^verbatim>\<open>iteration\<close>
  and \<^verbatim>\<open>E_OMP2\<close> of the last iteration run (both unbound when none ran) and
  \<^verbatim>\<open>E_OMP2_old\<close>. The way the loop was left, by \<^verbatim>\<open>break\<close> or by running out of
  \<^verbatim>\<open>range(MAXITER)\<close>, is no variable of the code; the model records it beside them.
\<close>

datatype loop_exit = Break | Exhausted

record 's loop_vars =
  end_state :: 's
  end_iteration :: "(nat \<times> real) option"
  end_E_OMP2_old :: real

fun omp2_loop ::
  "('s \<Rightarrow> stop + ('s \<times> real)) \<Rightarrow> real \<Rightarrow> nat \<Rightarrow> nat \<Rightarrow> 's loop_vars
     \<Rightarrow> stop + (loop_exit \<times> 's loop_vars)" where
  "omp2_loop body E_conv 0 iteration vs = Inr (Exhausted, vs)"
| "omp2_loop body E_conv (Suc remaining) iteration vs =
     (case body (end_state vs) of
        Inl e \<Rightarrow> Inl e
      | Inr (s', E_OMP2) \<Rightarrow>
          if \<bar>E_OMP2 - end_E_OMP2_old vs\<bar> < E_conv
          then Inr (Break, \<lparr>end_state = s', end_iteration = Some (iteration, E_OMP2),
                            end_E_OMP2_old = end_E_OMP2_old vs\<rparr>)
          else omp2_loop body E_conv remaining (Suc iteration)
                 \<lparr>end_state = s', end_iteration = Some (iteration, E_OMP2),
                  end_E_OMP2_old = E_OMP2\<rparr>)"

definition omp2_body ::
  "nat \<Rightarrow> nat \<Rightarrow> mat \<Rightarrow> ten4 \<Rightarrow> real \<Rightarrow> omp2_state \<Rightarrow> stop + (omp2_state \<times> real)" where
  "omp2_body nso nocc hao gao E_nuc s =
     (case omp2_iteration nso nocc hao gao E_nuc s of
        Inl e \<Rightarrow> Inl e
      | Inr (s', loc) \<Rightarrow> Inr (s', loc_E_OMP2 loc))"

definition omp2 ::
  "nat \<Rightarrow> nat \<Rightarrow> mat \<Rightarrow> ten4 \<Rightarrow> real \<Rightarrow> mat \<Rightarrow> real \<Rightarrow> nat
     \<Rightarrow> stop + (loop_exit \<times> omp2_state loop_vars)" where
  "omp2 nso nocc hao gao E_nuc C0 E_conv MAXITER =
     (case omp2_init nso nocc hao gao C0 of
        Inl e \<Rightarrow> Inl e
      | Inr s0 \<Rightarrow> omp2_loop (omp2_body nso nocc hao gao E_nuc) E_conv MAXITER 0
                   \<lparr>end_state = s0, end_iteration = None, end_E_OMP2_old = 0\<rparr>)"

text \<open>
  The state at the start of iteration \<open>k\<close> when no \<^verbatim>\<open>break\<close> has been taken: \<open>k\<close> runs
  of the body.
\<close>

fun omp2_iterate ::
  "nat \<Rightarrow> nat \<Rightarrow> mat \<Rightarrow> ten4 \<Rightarrow> real \<Rightarrow> nat \<Rightarrow> omp2_state \<Rightarrow> stop + omp2_state" where
  "omp2_iterate nso nocc hao gao E_nuc 0 s = Inr s"
| "omp2_iterate nso nocc hao gao E_nuc (Suc k) s =
     (case omp2_iterate nso nocc hao gao E_nuc k s of
        Inl e \<Rightarrow> Inl e
      | Inr s' \<Rightarrow> (case omp2_iteration nso nocc hao gao E_nuc s' of
                     Inl e \<Rightarrow> Inl e
                   | Inr (s'', loc) \<Rightarrow> Inr s''))"

text \<open>
  For the course of the loop: \<open>st i\<close> is the carried state at the start of iteration \<open>i\<close>
  and \<open>E i\<close> the energy iteration \<open>i\<close> computes. \<open>vars_at st E i\<close> are the loop variables at
  the start of iteration \<open>i\<close>, and \<open>converged_at E E_conv k\<close> is the test
  \<^verbatim>\<open>abs(E_OMP2-E_OMP2_old) < E_conv\<close> of iteration \<open>k\<close>.
\<close>

definition vars_at :: "(nat \<Rightarrow> 's) \<Rightarrow> (nat \<Rightarrow> real) \<Rightarrow> nat \<Rightarrow> 's loop_vars" where
  "vars_at st E i =
     \<lparr>end_state = st i,
      end_iteration = (if i = 0 then None else Some (i - 1, E (i - 1))),
      end_E_OMP2_old = (if i = 0 then 0 else E (i - 1))\<rparr>"

definition converged_at :: "(nat \<Rightarrow> real) \<Rightarrow> real \<Rightarrow> nat \<Rightarrow> bool" where
  "converged_at E E_conv k \<longleftrightarrow> \<bar>E k - (if k = 0 then 0 else E (k - 1))\<bar> < E_conv"

text \<open>
  A body that only counts its runs and returns the energies of a given sequence: the loop
  on its own, for any course of the energy.
\<close>

definition energy_body :: "(nat \<Rightarrow> real) \<Rightarrow> nat \<Rightarrow> stop + (nat \<times> real)" where
  "energy_body E = (\<lambda>k. Inr (Suc k, E k))"

text \<open>
  The sum of the absolute values of the entries of an \<open>n \<times> n\<close> matrix, which bounds the
  entries of its powers in the exponential series.
\<close>

definition abs_sum :: "nat \<Rightarrow> mat \<Rightarrow> real" where
  "abs_sum n A = (\<Sum>p<n. \<Sum>q<n. \<bar>A p q\<bar>)"

section \<open>The amplitude update in the words of the specification\<close>

text \<open>
  ``Compute the raw contraction term, then subtract its transpose under the relevant index
  swap'': the virtual pair for the \<open>fprime_vv\<close> term, the occupied pair for the
  \<open>fprime_oo\<close> term. The specification does not say which index of \<open>fprime\<close> is
  summed; the positions are those of the \<^verbatim>\<open>einsum\<close> strings.
\<close>

definition antisymmetrize_ab :: "ten4 \<Rightarrow> ten4" where
  "antisymmetrize_ab T = (\<lambda>a b i j. T a b i j - T b a i j)"

definition antisymmetrize_ij :: "ten4 \<Rightarrow> ten4" where
  "antisymmetrize_ij T = (\<lambda>a b i j. T a b i j - T a b j i)"

definition spec_D :: "nat \<Rightarrow> vec \<Rightarrow> ten4" where
  "spec_D nocc eps = (\<lambda>a b i j. eps i + eps j - eps (nocc + a) - eps (nocc + b))"

definition spec_t_new :: "nat \<Rightarrow> nat \<Rightarrow> mat \<Rightarrow> ten4 \<Rightarrow> vec \<Rightarrow> ten4 \<Rightarrow> ten4" where
  "spec_t_new nso nocc fprime gmo eps t_prev =
     (\<lambda>a b i j.
        (gmo (nocc + a) (nocc + b) i j
         + antisymmetrize_ab
             (\<lambda>a b i j. \<Sum>c<nso - nocc. fprime (nocc + a) (nocc + c) * t_prev c b i j) a b i j
         - antisymmetrize_ij
             (\<lambda>a b i j. \<Sum>k<nocc. fprime k i * t_prev a b k j) a b i j)
        / spec_D nocc eps a b i j)"

section \<open>The two-particle density in the words of the specification\<close>

text \<open>
  \<open>tpdm_corr\<close> holds \<open>t\<close> in its virtual-virtual-occupied-occupied block, the transpose of
  \<open>t\<close> over the four legs in its occupied-occupied-virtual-virtual block, and zero elsewhere.
  The outer product pairs \<open>(p, r)\<close> with \<open>(q, s)\<close>; its antisymmetrization carries four
  signed permutations for \<open>opdm_corr\<close> with \<open>opdm_ref\<close> and two for \<open>opdm_ref\<close> with itself.
\<close>

definition spec_tpdm_corr :: "nat \<Rightarrow> ten4 \<Rightarrow> ten4" where
  "spec_tpdm_corr nocc t =
     (\<lambda>p q r s. if nocc \<le> p \<and> nocc \<le> q \<and> r < nocc \<and> s < nocc
                   then t (p - nocc) (q - nocc) r s
                 else if p < nocc \<and> q < nocc \<and> nocc \<le> r \<and> nocc \<le> s
                   then t (s - nocc) (r - nocc) q p
                 else 0)"

definition outer_product :: "mat \<Rightarrow> mat \<Rightarrow> ten4" where
  "outer_product A B = (\<lambda>r s p q. A r p * B s q)"

definition antisymmetrize_4 :: "ten4 \<Rightarrow> ten4" where
  "antisymmetrize_4 T = (\<lambda>r s p q. T r s p q - T s r p q - T r s q p + T s r q p)"

definition antisymmetrize_2 :: "ten4 \<Rightarrow> ten4" where
  "antisymmetrize_2 T = (\<lambda>r s p q. T r s p q - T s r p q)"

definition spec_tpdm :: "nat \<Rightarrow> ten4 \<Rightarrow> mat \<Rightarrow> ten4" where
  "spec_tpdm nocc t opdm_corr =
     (\<lambda>r s p q. spec_tpdm_corr nocc t r s p q
                + antisymmetrize_4 (outer_product opdm_corr (opdm_ref nocc)) r s p q
                + antisymmetrize_2 (outer_product (opdm_ref nocc) (opdm_ref nocc)) r s p q)"

text \<open>
  What holds of the carried arrays at the start of every iteration: \<^verbatim>\<open>gmo\<close> and
  \<^verbatim>\<open>t_amp\<close> have both pair antisymmetries, and the arrays allocated as zeros before the
  loop are still zero outside the blocks the loop assigns.
\<close>

definition omp2_inv :: "omp2_state \<Rightarrow> bool" where
  "omp2_inv s \<longleftrightarrow> antisym (var_gmo s) \<and> antisym (var_t_amp s)"

definition zero_blocks :: "nat \<Rightarrow> omp2_state \<Rightarrow> bool" where
  "zero_blocks nocc s \<longleftrightarrow>
     (\<forall>p q. \<not> (p < nocc \<and> q < nocc) \<and> \<not> (nocc \<le> p \<and> nocc \<le> q) \<longrightarrow> var_opdm_corr s p q = 0)
     \<and> (\<forall>p q r u. \<not> (p < nocc \<and> q < nocc \<and> nocc \<le> r \<and> nocc \<le> u)
                  \<and> \<not> (nocc \<le> p \<and> nocc \<le> q \<and> r < nocc \<and> u < nocc)
                  \<longrightarrow> var_tpdm_corr s p q r u = 0)
     \<and> (\<forall>p q. \<not> (nocc \<le> p \<and> q < nocc) \<longrightarrow> var_X s p q = 0)"

section \<open>Small inputs to run the definitions on\<close>

text \<open>
  Two spin orbitals, one of them occupied: a diagonal one-electron array, a two-electron
  array with both pair antisymmetries, and a coefficient matrix that is not the identity.
\<close>

definition ex_hao :: mat where
  "ex_hao = (\<lambda>p q. if p = q then 3 + 2 * real p else 0)"

definition ex_gao :: ten4 where
  "ex_gao = (\<lambda>p q r s. (real p - real q) * (real r - real s))"

definition ex_C :: mat where
  "ex_C = (\<lambda>p q. real p + 2 * real q + 1)"

text \<open>
  Four spin orbitals, two occupied, with the identity as coefficient matrix: the state
  \<^verbatim>\<open>omp2_init\<close> returns, and an off-diagonal Fock array, orbital energies and a previous
  amplitude array to run the amplitude update on.
\<close>

definition ex_s0 :: omp2_state where
  "ex_s0 = \<lparr>var_C = mat_id, var_hmo = ao_to_mo 4 ex_hao mat_id,
            var_gmo = ao_to_mo_tei 4 ex_gao mat_id,
            var_t_amp = (\<lambda>a b i j. 0), var_opdm_corr = (\<lambda>p q. 0),
            var_tpdm_corr = (\<lambda>p q r s. 0), var_X = (\<lambda>p q. 0)\<rparr>"

definition ex_fprime :: mat where
  "ex_fprime = fill_diagonal_0 (\<lambda>p q. real p + 2 * real q)"

definition ex_eps :: vec where
  "ex_eps = (\<lambda>p. 3 * real p + 1)"

definition ex_t_prev :: ten4 where
  "ex_t_prev = (\<lambda>a b i j. real a + 2 * real b + 3 * real i + 5 * real j + 1)"

text \<open>
  The same four orbitals with one-electron integrals chosen so that the orbital energies
  of the first iteration are \<open>1 + 10\<^sup>-\<^sup>1\<^sup>2\<close> for both occupied and \<open>1\<close> for both virtual
  orbitals: the occupied energies exceed the virtual ones and every denominator is tiny.
\<close>

definition ex_deg_hao :: mat where
  "ex_deg_hao = (\<lambda>p q. if p = q then (if p < 2 then 1 / 10 ^ 12 else if p = 2 then - 4 else - 12) else 0)"

definition ex_deg_s0 :: omp2_state where
  "ex_deg_s0 = \<lparr>var_C = mat_id, var_hmo = ao_to_mo 4 ex_deg_hao mat_id,
            var_gmo = ao_to_mo_tei 4 ex_gao mat_id,
            var_t_amp = (\<lambda>a b i j. 0), var_opdm_corr = (\<lambda>p q. 0),
            var_tpdm_corr = (\<lambda>p q r s. 0), var_X = (\<lambda>p q. 0)\<rparr>"

text \<open>
  Four orbitals whose two-electron array lives only in the two blocks that couple an
  occupied pair with a virtual pair: with the diagonal \<open>ex_hao\<close> and the identity as
  coefficient matrix these orbitals are already optimal. \<open>ex_blk_t\<close> is the amplitude
  array of their first iteration. \<open>ex_X\<close> is a rotation generator of two orbitals, one
  occupied, that is nonzero in its virtual-occupied entry only.
\<close>

definition ex_blk_gao :: ten4 where
  "ex_blk_gao = (\<lambda>p q r s.
     if (p < 2 \<and> q < 2 \<and> 2 \<le> r \<and> 2 \<le> s) \<or> (2 \<le> p \<and> 2 \<le> q \<and> r < 2 \<and> s < 2)
     then (real p - real q) * (real r - real s) else 0)"

definition ex_blk_s0 :: omp2_state where
  "ex_blk_s0 = \<lparr>var_C = mat_id, var_hmo = ao_to_mo 4 ex_hao mat_id,
            var_gmo = ao_to_mo_tei 4 ex_blk_gao mat_id,
            var_t_amp = (\<lambda>a b i j. 0), var_opdm_corr = (\<lambda>p q. 0),
            var_tpdm_corr = (\<lambda>p q r s. 0), var_X = (\<lambda>p q. 0)\<rparr>"

definition ex_blk_t :: ten4 where
  "ex_blk_t = (\<lambda>a b i j. var_gmo ex_blk_s0 (2 + a) (2 + b) i j
       / t_amp_denominator 2 (diagonal (build_fock 2 (var_hmo ex_blk_s0) (var_gmo ex_blk_s0))) a b i j)"

definition ex_X :: mat where
  "ex_X = (\<lambda>p q. if p = 1 \<and> q = 0 then 1 / 2 else 0)"

text \<open>The state after the first iteration on the already optimal orbitals.\<close>

definition ex_blk_s1 :: omp2_state where
  "ex_blk_s1 = fst (projr (omp2_iteration 4 2 ex_hao ex_blk_gao 0 ex_blk_s0))"

section \<open>The integral transform\<close>

lemma ao_to_mo_tei_flat:
  "ao_to_mo_tei n gao C P Q R S =
     (\<Sum>p<n. \<Sum>q<n. \<Sum>r<n. \<Sum>s<n. gao p q r s * C s S * C r R * C q Q * C p P)"
  by (simp add: ao_to_mo_tei_def sum_distrib_right)

lemma ao_to_mo_tei_swap12:
  assumes "antisym_below n gao"
  shows "ao_to_mo_tei n gao C P Q R S = - ao_to_mo_tei n gao C Q P R S"
proof -
  have "ao_to_mo_tei n gao C Q P R S =
      (\<Sum>p<n. \<Sum>q<n. \<Sum>r<n. \<Sum>s<n. gao p q r s * C s S * C r R * C q P * C p Q)"
    by (rule ao_to_mo_tei_flat)
  also have "\<dots> = (\<Sum>q<n. \<Sum>p<n. \<Sum>r<n. \<Sum>s<n. gao p q r s * C s S * C r R * C q P * C p Q)"
    by (rule sum.swap)
  also have "\<dots> = (\<Sum>q<n. \<Sum>p<n. \<Sum>r<n. \<Sum>s<n. - (gao q p r s * C s S * C r R * C p Q * C q P))"
  proof (intro sum.cong refl)
    fix q p r s
    assume "q \<in> {..<n}" "p \<in> {..<n}" "r \<in> {..<n}" "s \<in> {..<n}"
    with assms have "gao p q r s = - gao q p r s"
      unfolding antisym_below_def by blast
    then show "gao p q r s * C s S * C r R * C q P * C p Q
        = - (gao q p r s * C s S * C r R * C p Q * C q P)"
      by simp
  qed
  also have "\<dots> = - (\<Sum>q<n. \<Sum>p<n. \<Sum>r<n. \<Sum>s<n. gao q p r s * C s S * C r R * C p Q * C q P)"
    by (simp add: sum_negf)
  also have "\<dots> = - ao_to_mo_tei n gao C P Q R S"
    by (simp add: ao_to_mo_tei_flat)
  finally show ?thesis by simp
qed

lemma ao_to_mo_tei_swap34:
  assumes "antisym_below n gao"
  shows "ao_to_mo_tei n gao C P Q R S = - ao_to_mo_tei n gao C P Q S R"
proof -
  have "ao_to_mo_tei n gao C P Q S R =
      (\<Sum>p<n. \<Sum>q<n. \<Sum>r<n. \<Sum>s<n. gao p q r s * C s R * C r S * C q Q * C p P)"
    by (rule ao_to_mo_tei_flat)
  also have "\<dots> = (\<Sum>p<n. \<Sum>q<n. \<Sum>s<n. \<Sum>r<n. gao p q r s * C s R * C r S * C q Q * C p P)"
    by (intro sum.cong refl sum.swap)
  also have "\<dots> = (\<Sum>p<n. \<Sum>q<n. \<Sum>s<n. \<Sum>r<n. - (gao p q s r * C r S * C s R * C q Q * C p P))"
  proof (intro sum.cong refl)
    fix p q s r
    assume "p \<in> {..<n}" "q \<in> {..<n}" "s \<in> {..<n}" "r \<in> {..<n}"
    with assms have "gao p q r s = - gao p q s r"
      unfolding antisym_below_def by blast
    then show "gao p q r s * C s R * C r S * C q Q * C p P
        = - (gao p q s r * C r S * C s R * C q Q * C p P)"
      by simp
  qed
  also have "\<dots> = - (\<Sum>p<n. \<Sum>q<n. \<Sum>s<n. \<Sum>r<n. gao p q s r * C r S * C s R * C q Q * C p P)"
    by (simp add: sum_negf)
  also have "\<dots> = - ao_to_mo_tei n gao C P Q R S"
    by (simp add: ao_to_mo_tei_flat)
  finally show ?thesis by simp
qed

lemma ao_to_mo_tei_antisym:
  "antisym_below n gao \<Longrightarrow> antisym (ao_to_mo_tei n gao C)"
  unfolding antisym_def using ao_to_mo_tei_swap12 ao_to_mo_tei_swap34 by blast

lemma mult_if_01: "x * (if b then 1 else 0) = (if b then x else (0::real))"
  by simp

lemma ao_to_mo_id: "P < n \<Longrightarrow> Q < n \<Longrightarrow> ao_to_mo n hao mat_id P Q = hao P Q"
  by (simp add: ao_to_mo_def mat_id_def mult_if_01 sum.delta)

lemma ao_to_mo_tei_id:
  "P < n \<Longrightarrow> Q < n \<Longrightarrow> R < n \<Longrightarrow> S < n \<Longrightarrow> ao_to_mo_tei n gao mat_id P Q R S = gao P Q R S"
  by (simp add: ao_to_mo_tei_def mat_id_def mult_if_01 sum.delta)

lemma ao_to_mo_cong:
  assumes "\<And>p q. p < n \<Longrightarrow> q < n \<Longrightarrow> C p q = C' p q" "P < n" "Q < n"
  shows "ao_to_mo n hao C P Q = ao_to_mo n hao C' P Q"
proof -
  have "(\<Sum>q<n. hao p q * C q Q) = (\<Sum>q<n. hao p q * C' q Q)" if "p < n" for p
    using that assms by (intro sum.cong refl) simp
  then show ?thesis
    unfolding ao_to_mo_def using assms by (intro sum.cong refl) simp
qed

lemma ao_to_mo_tei_cong:
  assumes "\<And>p q. p < n \<Longrightarrow> q < n \<Longrightarrow> C p q = C' p q" "P < n" "Q < n" "R < n" "S < n"
  shows "ao_to_mo_tei n gao C P Q R S = ao_to_mo_tei n gao C' P Q R S"
  unfolding ao_to_mo_tei_flat using assms by (intro sum.cong refl) simp

section \<open>The amplitude update\<close>

lemma antisym_swap12: "antisym g \<Longrightarrow> g q p r s = - g p q r s"
  unfolding antisym_def by blast

lemma antisym_swap34: "antisym g \<Longrightarrow> g p q s r = - g p q r s"
  unfolding antisym_def by blast

lemma antisym_swap_both: "antisym g \<Longrightarrow> g q p s r = g p q r s"
  unfolding antisym_def by (metis minus_minus)

lemma update_t_amp_Inr:
  "update_t_amp nso nocc fprime eps gmo t_amp = Inr t \<Longrightarrow>
     t = (\<lambda>a b i j. t_amp_numerator nso nocc fprime gmo t_amp a b i j / t_amp_denominator nocc eps a b i j)"
  by (auto simp: update_t_amp_def Let_def split: if_splits)

lemma update_t_amp_InrI:
  assumes "\<forall>a\<in>{..<nso - nocc}. \<forall>b\<in>{..<nso - nocc}. \<forall>i\<in>{..<nocc}. \<forall>j\<in>{..<nocc}.
             t_amp_denominator nocc eps a b i j \<noteq> 0"
  shows "update_t_amp nso nocc fprime eps gmo t_amp =
     Inr (\<lambda>a b i j. t_amp_numerator nso nocc fprime gmo t_amp a b i j
                      / t_amp_denominator nocc eps a b i j)"
  using assms unfolding update_t_amp_def Let_def by auto

lemma t_amp_numerator_antisym:
  assumes g: "antisym gmo" and t: "antisym t_amp"
  shows "antisym (t_amp_numerator nso nocc fprime gmo t_amp)"
proof -
  have tab: "\<And>a b i j. t_amp b a i j = - t_amp a b i j"
    using t by (rule antisym_swap12)
  have tij: "\<And>a b i j. t_amp a b j i = - t_amp a b i j"
    using t by (rule antisym_swap34)
  have gab: "\<And>a b i j. gmo b a i j = - gmo a b i j"
    using g by (rule antisym_swap12)
  have gij: "\<And>a b i j. gmo a b j i = - gmo a b i j"
    using g by (rule antisym_swap34)
  show ?thesis
    unfolding antisym_def t_amp_numerator_def Let_def
  proof (intro allI conjI)
    fix a b i j
    have 1: "(\<Sum>k<nocc. fprime k i * t_amp b a k j) = - (\<Sum>k<nocc. fprime k i * t_amp a b k j)"
      by (simp add: tab [of b a] sum_negf)
    have 2: "(\<Sum>k<nocc. fprime k j * t_amp b a k i) = - (\<Sum>k<nocc. fprime k j * t_amp a b k i)"
      by (simp add: tab [of b a] sum_negf)
    show "gmo (nocc + a) (nocc + b) i j +
       (\<Sum>c<nso - nocc. fprime (nocc + a) (nocc + c) * t_amp c b i j) -
       (\<Sum>c<nso - nocc. fprime (nocc + b) (nocc + c) * t_amp c a i j) -
       (\<Sum>k<nocc. fprime k i * t_amp a b k j) +
       (\<Sum>k<nocc. fprime k j * t_amp a b k i) =
       - (gmo (nocc + b) (nocc + a) i j +
          (\<Sum>c<nso - nocc. fprime (nocc + b) (nocc + c) * t_amp c a i j) -
          (\<Sum>c<nso - nocc. fprime (nocc + a) (nocc + c) * t_amp c b i j) -
          (\<Sum>k<nocc. fprime k i * t_amp b a k j) +
          (\<Sum>k<nocc. fprime k j * t_amp b a k i))"
      by (simp add: 1 2 gab [of "nocc + b" "nocc + a"])
    have 3: "(\<Sum>c<nso - nocc. fprime (nocc + a) (nocc + c) * t_amp c b j i)
           = - (\<Sum>c<nso - nocc. fprime (nocc + a) (nocc + c) * t_amp c b i j)"
      by (simp add: tij [of _ _ j i] sum_negf)
    have 4: "(\<Sum>c<nso - nocc. fprime (nocc + b) (nocc + c) * t_amp c a j i)
           = - (\<Sum>c<nso - nocc. fprime (nocc + b) (nocc + c) * t_amp c a i j)"
      by (simp add: tij [of _ _ j i] sum_negf)
    show "gmo (nocc + a) (nocc + b) i j +
       (\<Sum>c<nso - nocc. fprime (nocc + a) (nocc + c) * t_amp c b i j) -
       (\<Sum>c<nso - nocc. fprime (nocc + b) (nocc + c) * t_amp c a i j) -
       (\<Sum>k<nocc. fprime k i * t_amp a b k j) +
       (\<Sum>k<nocc. fprime k j * t_amp a b k i) =
       - (gmo (nocc + a) (nocc + b) j i +
          (\<Sum>c<nso - nocc. fprime (nocc + a) (nocc + c) * t_amp c b j i) -
          (\<Sum>c<nso - nocc. fprime (nocc + b) (nocc + c) * t_amp c a j i) -
          (\<Sum>k<nocc. fprime k j * t_amp a b k i) +
          (\<Sum>k<nocc. fprime k i * t_amp a b k j))"
      by (simp add: 3 4 gij [of _ _ j i])
  qed
qed

lemma t_amp_denominator_sym:
  "t_amp_denominator nocc eps b a i j = t_amp_denominator nocc eps a b i j"
  "t_amp_denominator nocc eps a b j i = t_amp_denominator nocc eps a b i j"
  by (simp_all add: t_amp_denominator_def)

lemma update_t_amp_antisym:
  assumes "antisym gmo" "antisym t_amp"
    and "update_t_amp nso nocc fprime eps gmo t_amp = Inr t"
  shows "antisym t"
proof -
  let ?N = "t_amp_numerator nso nocc fprime gmo t_amp"
  let ?D = "t_amp_denominator nocc eps"
  have n: "antisym ?N"
    using assms(1,2) by (rule t_amp_numerator_antisym)
  have t: "t = (\<lambda>a b i j. ?N a b i j / ?D a b i j)"
    using assms(3) by (rule update_t_amp_Inr)
  show ?thesis
    unfolding antisym_def
  proof (intro allI conjI)
    fix a b i j
    have "?N b a i j = - ?N a b i j"
      using n by (rule antisym_swap12)
    moreover have "?D b a i j = ?D a b i j"
      by (rule t_amp_denominator_sym)
    ultimately show "t a b i j = - t b a i j"
      by (simp add: t)
    have "?N a b j i = - ?N a b i j"
      using n by (rule antisym_swap34)
    moreover have "?D a b j i = ?D a b i j"
      by (rule t_amp_denominator_sym)
    ultimately show "t a b i j = - t a b j i"
      by (simp add: t)
  qed
qed

section \<open>The densities\<close>

lemma build_opdm_corr_sym:
  assumes t: "antisym t"
    and z: "\<forall>p q. \<not> (p < nocc \<and> q < nocc) \<and> \<not> (nocc \<le> p \<and> nocc \<le> q) \<longrightarrow> opdm_corr p q = 0"
  shows "build_opdm_corr nso nocc t opdm_corr p q = build_opdm_corr nso nocc t opdm_corr q p"
proof -
  have vv: "(\<Sum>i<nocc. \<Sum>j<nocc. \<Sum>c<nso - nocc. t c a j i * t b c i j)
          = (\<Sum>i<nocc. \<Sum>j<nocc. \<Sum>c<nso - nocc. t c b j i * t a c i j)" for a b
  proof (intro sum.cong refl)
    fix i j c
    have "t c a j i = t a c i j" "t c b j i = t b c i j"
      using t by (rule antisym_swap_both)+
    then show "t c a j i * t b c i j = t c b j i * t a c i j"
      by simp
  qed
  have oo: "(\<Sum>k<nocc. \<Sum>a<nso - nocc. \<Sum>b<nso - nocc. t b a k j * t a b i k)
          = (\<Sum>k<nocc. \<Sum>a<nso - nocc. \<Sum>b<nso - nocc. t b a k i * t a b j k)" for i j
  proof (intro sum.cong refl)
    fix k a b
    have "t b a k j = t a b j k" "t b a k i = t a b i k"
      using t by (rule antisym_swap_both)+
    then show "t b a k j * t a b i k = t b a k i * t a b j k"
      by simp
  qed
  consider "p < nocc \<and> q < nocc" | "nocc \<le> p \<and> nocc \<le> q"
    | "\<not> (p < nocc \<and> q < nocc) \<and> \<not> (nocc \<le> p \<and> nocc \<le> q)"
    by blast
  then show ?thesis
  proof cases
    case 1
    then show ?thesis
      using oo [of p q] by (simp add: build_opdm_corr_def Let_def)
  next
    case 2
    then show ?thesis
      using vv [of "q - nocc" "p - nocc"] by (auto simp add: build_opdm_corr_def Let_def)
  next
    case 3
    then have "\<not> (q < nocc \<and> p < nocc) \<and> \<not> (nocc \<le> q \<and> nocc \<le> p)"
      by blast
    with 3 z have "opdm_corr p q = 0" "opdm_corr q p = 0"
      by blast+
    with 3 show ?thesis
      by (auto simp add: build_opdm_corr_def Let_def)
  qed
qed

lemma opdm_ref_sym: "opdm_ref nocc p q = opdm_ref nocc q p"
  by (simp add: opdm_ref_def)

section \<open>The rotation generator and the matrix exponential\<close>

lemma update_X_Inr:
  assumes "update_X nso nocc F eps X = Inr X'"
  shows "X' = (\<lambda>p q. if nocc \<le> p \<and> q < nocc
                  then orbital_gradient nocc F (p - nocc) q / (- eps (nocc + (p - nocc)) + eps q)
                  else X p q)"
proof -
  have ne: "\<not> (\<exists>a\<in>{..<nso - nocc}. \<exists>i\<in>{..<nocc}. - eps (nocc + a) + eps i = 0)"
    using assms unfolding update_X_def Let_def by (auto split: if_splits)
  have "update_X nso nocc F eps X = Inr (\<lambda>p q. if nocc \<le> p \<and> q < nocc
                  then orbital_gradient nocc F (p - nocc) q / (- eps (nocc + (p - nocc)) + eps q)
                  else X p q)"
    unfolding update_X_def Let_def using ne by (rule if_not_P)
  with assms show ?thesis by simp
qed

lemma update_X_InrI:
  assumes "\<forall>a\<in>{..<nso - nocc}. \<forall>i\<in>{..<nocc}. - eps (nocc + a) + eps i \<noteq> 0"
  shows "update_X nso nocc F eps X = Inr (\<lambda>p q. if nocc \<le> p \<and> q < nocc
                  then orbital_gradient nocc F (p - nocc) q / (- eps (nocc + (p - nocc)) + eps q)
                  else X p q)"
proof -
  from assms have ne: "\<not> (\<exists>a\<in>{..<nso - nocc}. \<exists>i\<in>{..<nocc}. - eps (nocc + a) + eps i = 0)"
    by blast
  show ?thesis
    unfolding update_X_def Let_def using ne by (rule if_not_P)
qed

lemma mat_mul_id_left: "i < n \<Longrightarrow> mat_mul n mat_id B i j = B i j"
  by (simp add: mat_mul_def mat_id_def if_distrib [of "\<lambda>x. x * _"] sum.delta cong: if_cong)

lemma mat_mul_id_right: "j < n \<Longrightarrow> mat_mul n B mat_id i j = B i j"
  by (simp add: mat_mul_def mat_id_def mult_if_01 sum.delta)

lemma mat_mul_assoc:
  "mat_mul n (mat_mul n A B) C i j = mat_mul n A (mat_mul n B C) i j"
proof -
  have "mat_mul n (mat_mul n A B) C i j = (\<Sum>m<n. \<Sum>l<n. A i l * B l m * C m j)"
    by (simp add: mat_mul_def sum_distrib_right)
  also have "\<dots> = (\<Sum>l<n. \<Sum>m<n. A i l * B l m * C m j)"
    by (rule sum.swap)
  also have "\<dots> = mat_mul n A (mat_mul n B C) i j"
    by (simp add: mat_mul_def sum_distrib_left mult.assoc)
  finally show ?thesis .
qed

lemma mat_mul_cong_right:
  "(\<And>m. m < n \<Longrightarrow> B m j = B' m j) \<Longrightarrow> mat_mul n A B i j = mat_mul n A B' i j"
  by (simp add: mat_mul_def)

lemma mat_pow_add:
  "i < n \<Longrightarrow> mat_mul n (mat_pow n A p) (mat_pow n A q) i j = mat_pow n A (p + q) i j"
proof (induction p arbitrary: i)
  case 0
  then show ?case by (simp add: mat_mul_id_left)
next
  case (Suc p)
  have "mat_mul n (mat_pow n A (Suc p)) (mat_pow n A q) i j
      = mat_mul n A (mat_mul n (mat_pow n A p) (mat_pow n A q)) i j"
    by (simp add: mat_mul_assoc)
  also have "\<dots> = mat_mul n A (mat_pow n A (p + q)) i j"
    by (rule mat_mul_cong_right) (rule Suc.IH)
  finally show ?case by simp
qed

lemma mat_pow_Suc_right:
  assumes "i < n" "j < n"
  shows "mat_pow n A (Suc k) i j = mat_mul n (mat_pow n A k) A i j"
proof -
  have "mat_pow n A (Suc 0) m j = A m j" for m
    using assms(2) by (simp add: mat_mul_id_right)
  then have "mat_mul n (mat_pow n A k) A i j = mat_mul n (mat_pow n A k) (mat_pow n A (Suc 0)) i j"
    by (simp add: mat_mul_def)
  also have "\<dots> = mat_pow n A (k + Suc 0) i j"
    using assms(1) by (rule mat_pow_add)
  finally show ?thesis by simp
qed

lemma mat_pow_transpose:
  "i < n \<Longrightarrow> j < n \<Longrightarrow> mat_pow n (\<lambda>p q. A q p) k i j = mat_pow n A k j i"
proof (induction k arbitrary: i j)
  case 0
  show ?case by (simp add: mat_id_def)
next
  case (Suc k)
  have "mat_pow n (\<lambda>p q. A q p) (Suc k) i j = (\<Sum>m<n. A m i * mat_pow n (\<lambda>p q. A q p) k m j)"
    by (simp add: mat_mul_def)
  also have "\<dots> = (\<Sum>m<n. A m i * mat_pow n A k j m)"
    using Suc.prems by (intro sum.cong refl) (simp add: Suc.IH)
  also have "\<dots> = mat_mul n (mat_pow n A k) A j i"
    by (simp add: mat_mul_def mult.commute)
  also have "\<dots> = mat_pow n A (Suc k) j i"
    using Suc.prems by (simp only: mat_pow_Suc_right)
  finally show ?case .
qed

lemma mat_pow_uminus:
  "mat_pow n (\<lambda>p q. - A p q) k i j = (- 1) ^ k * mat_pow n A k i j"
proof (induction k arbitrary: i)
  case 0
  show ?case by simp
next
  case (Suc k)
  show ?case
    by (simp add: mat_mul_def Suc.IH sum_negf sum_distrib_left mult.assoc mult.left_commute)
qed

lemma mat_pow_cong:
  assumes "\<And>p q. p < n \<Longrightarrow> q < n \<Longrightarrow> A p q = B p q"
  shows "i < n \<Longrightarrow> mat_pow n A k i j = mat_pow n B k i j"
proof (induction k arbitrary: i)
  case 0
  show ?case by simp
next
  case (Suc k)
  have "(\<Sum>m<n. A i m * mat_pow n A k m j) = (\<Sum>m<n. B i m * mat_pow n B k m j)"
    using Suc.prems by (intro sum.cong refl) (simp add: assms Suc.IH)
  then show ?case
    by (simp add: mat_mul_def)
qed

lemma row_sum_le: "i < n \<Longrightarrow> (\<Sum>m<n. \<bar>A i m\<bar>) \<le> abs_sum n A"
proof -
  assume "i < n"
  have "(\<Sum>m<n. \<bar>A i m\<bar>) = (\<Sum>p\<in>{i}. \<Sum>q<n. \<bar>A p q\<bar>)"
    by simp
  also have "\<dots> \<le> (\<Sum>p<n. \<Sum>q<n. \<bar>A p q\<bar>)"
    using \<open>i < n\<close> by (intro sum_mono2) (auto intro: sum_nonneg)
  finally show ?thesis by (simp add: abs_sum_def)
qed

lemma abs_sum_nonneg: "0 \<le> abs_sum n A"
  by (simp add: abs_sum_def sum_nonneg)

lemma mat_pow_bound: "i < n \<Longrightarrow> \<bar>mat_pow n A k i j\<bar> \<le> abs_sum n A ^ k"
proof (induction k arbitrary: i)
  case 0
  show ?case by (simp add: mat_id_def)
next
  case (Suc k)
  have "\<bar>mat_pow n A (Suc k) i j\<bar> \<le> (\<Sum>m<n. \<bar>A i m * mat_pow n A k m j\<bar>)"
    by (simp add: mat_mul_def)
  also have "\<dots> \<le> (\<Sum>m<n. \<bar>A i m\<bar> * abs_sum n A ^ k)"
    by (intro sum_mono) (simp add: abs_mult mult_left_mono Suc.IH)
  also have "\<dots> = (\<Sum>m<n. \<bar>A i m\<bar>) * abs_sum n A ^ k"
    by (simp add: sum_distrib_right)
  also have "\<dots> \<le> abs_sum n A * abs_sum n A ^ k"
    using Suc.prems by (intro mult_right_mono row_sum_le) (simp_all add: abs_sum_nonneg)
  finally show ?case by simp
qed

lemma expm_summable:
  assumes "i < n" and c: "\<And>k. \<bar>c k\<bar> \<le> 1"
  shows "summable (\<lambda>k. norm (c k * mat_pow n A k i j / fact k))"
proof (rule summable_comparison_test)
  show "summable (\<lambda>k. abs_sum n A ^ k /\<^sub>R fact k)"
    by (rule summable_exp_generic)
  show "\<exists>N. \<forall>k\<ge>N. norm (norm (c k * mat_pow n A k i j / fact k)) \<le> abs_sum n A ^ k /\<^sub>R fact k"
  proof (intro exI allI impI)
    fix k
    have "\<bar>c k * mat_pow n A k i j\<bar> \<le> 1 * abs_sum n A ^ k"
      unfolding abs_mult using c [of k] mat_pow_bound [OF assms(1), of A k j]
      by (intro mult_mono) simp_all
    then show "norm (norm (c k * mat_pow n A k i j / fact k)) \<le> abs_sum n A ^ k /\<^sub>R fact k"
      by (simp add: divide_inverse mult_right_mono abs_mult)
  qed
qed

lemma suminf_only_zero: "(\<Sum>k::nat. if k = 0 then c else (0::real)) = c"
  using sums_unique [OF sums_single [of 0 "\<lambda>k. c"]] by simp

lemma alternating_binomial_sum:
  "(\<Sum>p\<le>k. (- 1) ^ p / (fact p * fact (k - p))) = (if k = 0 then 1 else (0::real))"
proof -
  let ?S = "\<Sum>p\<le>k. (- 1) ^ p / (fact p * fact (k - p)) :: real"
  have "(0::real) ^ k = (- 1 + 1) ^ k"
    by simp
  also have "\<dots> = (\<Sum>p\<le>k. of_nat (k choose p) * (- 1) ^ p * 1 ^ (k - p))"
    by (rule binomial_ring)
  also have "\<dots> = (\<Sum>p\<le>k. fact k * ((- 1) ^ p / (fact p * fact (k - p))))"
    by (intro sum.cong refl) (simp add: binomial_fact)
  also have "\<dots> = fact k * ?S"
    by (simp add: sum_distrib_left)
  finally have "fact k * ?S = 0 ^ k"
    by simp
  then have "?S = 0 ^ k / fact k"
    by (simp add: field_simps)
  then show ?thesis
    by simp
qed

lemma expm_orthogonal:
  assumes anti: "\<And>p q. p < n \<Longrightarrow> q < n \<Longrightarrow> A q p = - A p q"
    and i: "i < n" and j: "j < n"
  shows "(\<Sum>m<n. expm n A m i * expm n A m j) = (if i = j then 1 else 0)"
proof -
  define x where "x m k = (- 1) ^ k * mat_pow n A k i m / fact k" for m k
  define y where "y m k = 1 * mat_pow n A k m j / fact k" for m k
  have tr: "mat_pow n A k m i = (- 1) ^ k * mat_pow n A k i m" if "m < n" for m k
  proof -
    have "mat_pow n A k m i = mat_pow n (\<lambda>p q. A q p) k i m"
      using mat_pow_transpose [OF i that, of A k] by simp
    also have "\<dots> = mat_pow n (\<lambda>p q. - A p q) k i m"
    proof (rule mat_pow_cong)
      fix p q
      assume "p < n" "q < n"
      then show "A q p = - A p q"
        by (rule anti)
    next
      show "i < n"
        by (rule i)
    qed
    also have "\<dots> = (- 1) ^ k * mat_pow n A k i m"
      by (rule mat_pow_uminus)
    finally show ?thesis .
  qed
  have U1: "expm n A m i = (\<Sum>k. x m k)" if "m < n" for m
    by (simp add: expm_def x_def tr [OF that])
  have U2: "expm n A m j = (\<Sum>k. y m k)" for m
    by (simp add: expm_def y_def)
  have sx: "summable (\<lambda>k. norm (x m k))" for m
    unfolding x_def using i by (rule expm_summable) simp
  have sy: "summable (\<lambda>k. norm (y m k))" if "m < n" for m
    unfolding y_def using that by (rule expm_summable) simp
  have cp: "(\<Sum>k. x m k) * (\<Sum>k. y m k) = (\<Sum>k. \<Sum>p\<le>k. x m p * y m (k - p))" if "m < n" for m
    using sx sy [OF that] by (rule Cauchy_product)
  have scp: "summable (\<lambda>k. \<Sum>p\<le>k. x m p * y m (k - p))" if "m < n" for m
    using sx sy [OF that] by (rule summable_Cauchy_product)
  have inner: "(\<Sum>m<n. \<Sum>p\<le>k. x m p * y m (k - p)) = (if k = 0 then mat_id i j else 0)" for k
  proof -
    have "(\<Sum>m<n. \<Sum>p\<le>k. x m p * y m (k - p)) = (\<Sum>p\<le>k. \<Sum>m<n. x m p * y m (k - p))"
      by (rule sum.swap)
    also have "\<dots> = (\<Sum>p\<le>k. (- 1) ^ p / (fact p * fact (k - p)) * mat_pow n A k i j)"
    proof (intro sum.cong refl)
      fix p
      assume "p \<in> {..k}"
      then have pk: "p + (k - p) = k"
        by simp
      have "(\<Sum>m<n. x m p * y m (k - p))
          = (- 1) ^ p / (fact p * fact (k - p)) * (\<Sum>m<n. mat_pow n A p i m * mat_pow n A (k - p) m j)"
        by (simp add: x_def y_def sum_distrib_left mult.assoc)
      also have "(\<Sum>m<n. mat_pow n A p i m * mat_pow n A (k - p) m j) = mat_pow n A k i j"
        using mat_pow_add [OF i, of A p "k - p" j] by (simp add: mat_mul_def pk)
      finally show "(\<Sum>m<n. x m p * y m (k - p))
          = (- 1) ^ p / (fact p * fact (k - p)) * mat_pow n A k i j" .
    qed
    also have "\<dots> = (\<Sum>p\<le>k. (- 1) ^ p / (fact p * fact (k - p))) * mat_pow n A k i j"
      by (simp add: sum_distrib_right)
    also have "\<dots> = (if k = 0 then mat_id i j else 0)"
      by (simp add: alternating_binomial_sum)
    finally show ?thesis .
  qed
  have "(\<Sum>m<n. expm n A m i * expm n A m j) = (\<Sum>m<n. \<Sum>k. \<Sum>p\<le>k. x m p * y m (k - p))"
    by (intro sum.cong refl) (simp add: U1 U2 cp)
  also have "\<dots> = (\<Sum>k. \<Sum>m<n. \<Sum>p\<le>k. x m p * y m (k - p))"
    by (rule suminf_sum [symmetric]) (simp add: scp)
  also have "\<dots> = (\<Sum>k. if k = 0 then mat_id i j else 0)"
    by (simp only: inner)
  also have "\<dots> = mat_id i j"
    by (rule suminf_only_zero)
  finally show ?thesis
    by (simp add: mat_id_def)
qed

lemma expm_zero:
  assumes z: "\<And>p q. p < n \<Longrightarrow> q < n \<Longrightarrow> A p q = 0" and i: "i < n"
  shows "expm n A i j = mat_id i j"
proof -
  have "mat_pow n A k i j = (if k = 0 then mat_id i j else 0)" for k
  proof (cases k)
    case 0
    then show ?thesis by simp
  next
    case (Suc k')
    then show ?thesis
      using i by (simp add: mat_mul_def z)
  qed
  then have "expm n A i j = (\<Sum>k. if k = 0 then mat_id i j else 0)"
    by (simp add: expm_def if_distrib [of "\<lambda>x. x / _"] cong: if_cong)
  also have "\<dots> = mat_id i j"
    by (rule suminf_only_zero)
  finally show ?thesis .
qed

section \<open>One iteration and what the loop maintains\<close>

lemma omp2_iteration_InrE:
  assumes "omp2_iteration nso nocc hao gao E_nuc s = Inr (s', loc)"
  obtains t X where
    "update_t_amp nso nocc (fill_diagonal_0 (build_fock nocc (var_hmo s) (var_gmo s)))
        (diagonal (build_fock nocc (var_hmo s) (var_gmo s))) (var_gmo s) (var_t_amp s) = Inr t"
    "update_X nso nocc (loc_F loc) (diagonal (build_fock nocc (var_hmo s) (var_gmo s))) (var_X s) = Inr X"
    "var_t_amp s' = t" "var_X s' = X"
    "var_opdm_corr s' = build_opdm_corr nso nocc t (var_opdm_corr s)"
    "var_tpdm_corr s' = build_tpdm_corr nocc t (var_tpdm_corr s)"
    "var_C s' = mat_mul nso (var_C s) (loc_U loc)"
    "var_hmo s' = ao_to_mo nso hao (var_C s')"
    "var_gmo s' = ao_to_mo_tei nso gao (var_C s')"
    "loc_opdm loc = build_opdm nocc (var_opdm_corr s')"
    "loc_tpdm loc = build_tpdm nocc (var_tpdm_corr s') (var_opdm_corr s')"
    "loc_F loc = generalized_fock nso (var_hmo s) (var_gmo s) (loc_opdm loc) (loc_tpdm loc)"
    "loc_U loc = rotation_operator nso X"
    "loc_E_OMP2 loc = omp2_energy nso E_nuc (var_hmo s') (var_gmo s') (loc_opdm loc) (loc_tpdm loc)"
  using assms unfolding omp2_iteration_def Let_def
  by (auto split: sum.splits)

lemma omp2_iteration_returns:
  assumes t: "\<forall>a\<in>{..<nso - nocc}. \<forall>b\<in>{..<nso - nocc}. \<forall>i\<in>{..<nocc}. \<forall>j\<in>{..<nocc}.
             t_amp_denominator nocc (diagonal (build_fock nocc (var_hmo s) (var_gmo s))) a b i j \<noteq> 0"
    and x: "\<forall>a\<in>{..<nso - nocc}. \<forall>i\<in>{..<nocc}.
             - diagonal (build_fock nocc (var_hmo s) (var_gmo s)) (nocc + a)
             + diagonal (build_fock nocc (var_hmo s) (var_gmo s)) i \<noteq> 0"
  shows "\<exists>s' loc. omp2_iteration nso nocc hao gao E_nuc s = Inr (s', loc)"
  unfolding omp2_iteration_def Let_def
  by (simp add: update_t_amp_InrI [OF t] update_X_InrI [OF x])

lemma omp2_init_Inr:
  assumes "omp2_init nso nocc hao gao C0 = Inr s0"
  shows "s0 = \<lparr>var_C = C0, var_hmo = ao_to_mo nso hao C0, var_gmo = ao_to_mo_tei nso gao C0,
                var_t_amp = (\<lambda>a b i j. 0), var_opdm_corr = (\<lambda>p q. 0),
                var_tpdm_corr = (\<lambda>p q r s. 0), var_X = (\<lambda>p q. 0)\<rparr>"
    and "nocc \<le> nso"
  using assms by (simp_all add: omp2_init_def split: if_splits)

lemma omp2_init_inv:
  assumes "antisym_below nso gao" "omp2_init nso nocc hao gao C0 = Inr s0"
  shows "omp2_inv s0"
proof -
  have "antisym (ao_to_mo_tei nso gao C0)"
    using assms(1) by (rule ao_to_mo_tei_antisym)
  moreover have "antisym (\<lambda>a b i j. 0)"
    by (simp add: antisym_def)
  ultimately show ?thesis
    by (simp add: omp2_inv_def omp2_init_Inr(1) [OF assms(2)])
qed

lemma omp2_iteration_inv:
  assumes g: "antisym_below nso gao" and inv: "omp2_inv s"
    and step: "omp2_iteration nso nocc hao gao E_nuc s = Inr (s', loc)"
  shows "omp2_inv s'"
proof -
  from step obtain t where
    t: "update_t_amp nso nocc (fill_diagonal_0 (build_fock nocc (var_hmo s) (var_gmo s)))
        (diagonal (build_fock nocc (var_hmo s) (var_gmo s))) (var_gmo s) (var_t_amp s) = Inr t"
    and eqs: "var_t_amp s' = t" "var_gmo s' = ao_to_mo_tei nso gao (var_C s')"
    by (rule omp2_iteration_InrE)
  have 1: "antisym (var_gmo s')"
    unfolding eqs using g by (rule ao_to_mo_tei_antisym)
  have 2: "antisym (var_t_amp s')"
    unfolding eqs using inv t by (auto simp: omp2_inv_def intro: update_t_amp_antisym)
  from 1 2 show ?thesis
    unfolding omp2_inv_def by blast
qed

lemma omp2_iterate_inv:
  assumes "antisym_below nso gao" "omp2_inv s0"
  shows "omp2_iterate nso nocc hao gao E_nuc k s0 = Inr s \<Longrightarrow> omp2_inv s"
proof (induction k arbitrary: s)
  case 0
  with assms(2) show ?case by simp
next
  case (Suc k)
  then obtain s1 loc where "omp2_iterate nso nocc hao gao E_nuc k s0 = Inr s1"
    and "omp2_iteration nso nocc hao gao E_nuc s1 = Inr (s, loc)"
    by (auto split: sum.splits)
  with Suc.IH assms(1) show ?case
    by (blast intro: omp2_iteration_inv)
qed

lemma omp2_init_zero_blocks:
  assumes "omp2_init nso nocc hao gao C0 = Inr s0"
  shows "zero_blocks nocc s0"
  by (simp add: zero_blocks_def omp2_init_Inr(1) [OF assms])

lemma omp2_iteration_zero_blocks:
  assumes inv: "zero_blocks nocc s"
    and step: "omp2_iteration nso nocc hao gao E_nuc s = Inr (s', loc)"
  shows "zero_blocks nocc s'"
proof -
  from step obtain t X where
    X: "update_X nso nocc (loc_F loc) (diagonal (build_fock nocc (var_hmo s) (var_gmo s))) (var_X s) = Inr X"
    and eqs: "var_X s' = X"
      "var_opdm_corr s' = build_opdm_corr nso nocc t (var_opdm_corr s)"
      "var_tpdm_corr s' = build_tpdm_corr nocc t (var_tpdm_corr s)"
    by (rule omp2_iteration_InrE)
  have 3: "\<forall>p q. \<not> (p < nocc \<and> q < nocc) \<and> \<not> (nocc \<le> p \<and> nocc \<le> q) \<longrightarrow> var_opdm_corr s' p q = 0"
    unfolding eqs using inv by (simp add: zero_blocks_def build_opdm_corr_def Let_def)
  have 4: "\<forall>p q r u. \<not> (p < nocc \<and> q < nocc \<and> nocc \<le> r \<and> nocc \<le> u)
                  \<and> \<not> (nocc \<le> p \<and> nocc \<le> q \<and> r < nocc \<and> u < nocc) \<longrightarrow> var_tpdm_corr s' p q r u = 0"
    unfolding eqs using inv by (simp add: zero_blocks_def build_tpdm_corr_def)
  have 5: "\<forall>p q. \<not> (nocc \<le> p \<and> q < nocc) \<longrightarrow> var_X s' p q = 0"
    unfolding eqs update_X_Inr [OF X] using inv by (simp add: zero_blocks_def)
  from 3 4 5 show ?thesis
    unfolding zero_blocks_def by blast
qed

lemma omp2_iterate_zero_blocks:
  assumes "zero_blocks nocc s0"
  shows "omp2_iterate nso nocc hao gao E_nuc k s0 = Inr s \<Longrightarrow> zero_blocks nocc s"
proof (induction k arbitrary: s)
  case 0
  with assms show ?case by simp
next
  case (Suc k)
  then obtain s1 loc where "omp2_iterate nso nocc hao gao E_nuc k s0 = Inr s1"
    and "omp2_iteration nso nocc hao gao E_nuc s1 = Inr (s, loc)"
    by (auto split: sum.splits)
  with Suc.IH show ?case
    by (blast intro: omp2_iteration_zero_blocks)
qed

lemma build_tpdm_corr_spec:
  assumes "zero_blocks nocc s"
  shows "build_tpdm_corr nocc t (var_tpdm_corr s) = spec_tpdm_corr nocc t"
proof -
  from assms have z: "\<forall>p q r u. \<not> (p < nocc \<and> q < nocc \<and> nocc \<le> r \<and> nocc \<le> u)
                  \<and> \<not> (nocc \<le> p \<and> nocc \<le> q \<and> r < nocc \<and> u < nocc)
                  \<longrightarrow> var_tpdm_corr s p q r u = 0"
    by (simp add: zero_blocks_def)
  then show ?thesis
    by (auto simp add: build_tpdm_corr_def spec_tpdm_corr_def fun_eq_iff)
qed

lemma zero_gradient_step:
  assumes zb: "zero_blocks nocc s"
    and st: "omp2_iteration nso nocc hao gao E_nuc s = Inr (s', loc)"
    and g: "\<forall>a\<in>{..<nso - nocc}. \<forall>i\<in>{..<nocc}. orbital_gradient nocc (loc_F loc) a i = 0"
    and pq: "p < nso" "q < nso"
  shows "var_X s' p q = 0 \<and> loc_U loc p q = mat_id p q \<and> var_C s' p q = var_C s p q"
proof -
  from zb have z: "\<And>p q. \<not> (nocc \<le> p \<and> q < nocc) \<Longrightarrow> var_X s p q = 0"
    by (simp add: zero_blocks_def)
  from st obtain t X where
    X: "update_X nso nocc (loc_F loc) (diagonal (build_fock nocc (var_hmo s) (var_gmo s))) (var_X s) = Inr X"
    and eqs: "var_X s' = X" "loc_U loc = rotation_operator nso X"
      "var_C s' = mat_mul nso (var_C s) (loc_U loc)"
    by (rule omp2_iteration_InrE)
  have X0: "X u w = 0" if "u < nso" "w < nso" for u w
  proof (cases "nocc \<le> u \<and> w < nocc")
    case True
    with that have "u - nocc \<in> {..<nso - nocc}" "w \<in> {..<nocc}"
      by auto
    with g have "orbital_gradient nocc (loc_F loc) (u - nocc) w = 0"
      by blast
    with True show ?thesis
      by (simp add: update_X_Inr [OF X])
  next
    case False
    then have "var_X s u w = 0"
      by (rule z)
    with False show ?thesis
      by (auto simp add: update_X_Inr [OF X])
  qed
  have U: "loc_U loc u w = mat_id u w" if "u < nso" for u w
    unfolding eqs rotation_operator_def using that by (intro expm_zero) (simp_all add: X0)
  have "var_C s' p q = mat_mul nso (var_C s) mat_id p q"
    unfolding eqs(3) by (rule mat_mul_cong_right) (rule U)
  also have "\<dots> = var_C s p q"
    using pq(2) by (rule mat_mul_id_right)
  finally have "var_C s' p q = var_C s p q" .
  with X0 [OF pq] U [OF pq(1)] show ?thesis
    by (simp add: eqs(1))
qed

section \<open>The course of the loop\<close>

lemma omp2_loop_exhausted:
  assumes "\<forall>j. i \<le> j \<and> j < i + n \<longrightarrow> body (st j) = Inr (st (Suc j), E j) \<and> \<not> converged_at E E_conv j"
  shows "omp2_loop body E_conv n i (vars_at st E i) = Inr (Exhausted, vars_at st E (i + n))"
  using assms
proof (induction n arbitrary: i)
  case 0
  show ?case by simp
next
  case (Suc n)
  from Suc.prems have b: "body (st i) = Inr (st (Suc i), E i)" and c: "\<not> converged_at E E_conv i"
    by simp_all
  have "\<forall>j. Suc i \<le> j \<and> j < Suc i + n \<longrightarrow> body (st j) = Inr (st (Suc j), E j) \<and> \<not> converged_at E E_conv j"
    using Suc.prems by simp
  then have IH: "omp2_loop body E_conv n (Suc i) (vars_at st E (Suc i)) = Inr (Exhausted, vars_at st E (Suc i + n))"
    by (rule Suc.IH)
  have v: "\<lparr>end_state = st (Suc i), end_iteration = Some (i, E i), end_E_OMP2_old = E i\<rparr> = vars_at st E (Suc i)"
    by (simp add: vars_at_def)
  from c have c': "\<not> \<bar>E i - end_E_OMP2_old (vars_at st E i)\<bar> < E_conv"
    by (simp add: converged_at_def vars_at_def)
  have s: "end_state (vars_at st E i) = st i"
    by (simp add: vars_at_def)
  show ?case
    by (simp add: s b c' v IH)
qed

lemma omp2_loop_break:
  assumes "i \<le> k" "k < i + n"
    and "\<forall>j. i \<le> j \<and> j \<le> k \<longrightarrow> body (st j) = Inr (st (Suc j), E j)"
    and "\<forall>j. i \<le> j \<and> j < k \<longrightarrow> \<not> converged_at E E_conv j"
    and "converged_at E E_conv k"
  shows "omp2_loop body E_conv n i (vars_at st E i)
     = Inr (Break, \<lparr>end_state = st (Suc k), end_iteration = Some (k, E k),
                    end_E_OMP2_old = (if k = 0 then 0 else E (k - 1))\<rparr>)"
  using assms
proof (induction n arbitrary: i)
  case 0
  then show ?case by simp
next
  case (Suc n)
  from Suc.prems have b: "body (st i) = Inr (st (Suc i), E i)"
    by simp
  have s: "end_state (vars_at st E i) = st i"
    by (simp add: vars_at_def)
  show ?case
  proof (cases "i = k")
    case True
    with Suc.prems(5) have c: "\<bar>E k - end_E_OMP2_old (vars_at st E k)\<bar> < E_conv"
      by (simp add: converged_at_def vars_at_def)
    have o: "end_E_OMP2_old (vars_at st E k) = (if k = 0 then 0 else E (k - 1))"
      by (simp add: vars_at_def)
    from True b s c o show ?thesis
      by simp
  next
    case False
    with Suc.prems have lt: "i < k" by simp
    with Suc.prems(4) have "\<not> converged_at E E_conv i" by simp
    then have c': "\<not> \<bar>E i - end_E_OMP2_old (vars_at st E i)\<bar> < E_conv"
      by (simp add: converged_at_def vars_at_def)
    have v: "\<lparr>end_state = st (Suc i), end_iteration = Some (i, E i), end_E_OMP2_old = E i\<rparr> = vars_at st E (Suc i)"
      by (simp add: vars_at_def)
    have "omp2_loop body E_conv n (Suc i) (vars_at st E (Suc i))
     = Inr (Break, \<lparr>end_state = st (Suc k), end_iteration = Some (k, E k),
                    end_E_OMP2_old = (if k = 0 then 0 else E (k - 1))\<rparr>)"
      using lt Suc.prems by (intro Suc.IH) simp_all
    then show ?thesis
      by (simp add: s b c' v)
  qed
qed

section \<open>The small inputs evaluated\<close>

lemma lessThan_2: "{..<(2::nat)} = {0, 1}"
  by auto

lemma lessThan_4: "{..<(4::nat)} = {0, 1, 2, 3}"
  by auto

lemma ball2D: "\<forall>i\<in>{..<n::nat}. \<forall>j\<in>{..<n}. P i j \<Longrightarrow> i < n \<Longrightarrow> j < n \<Longrightarrow> P i j"
  by simp

lemma ex_gao_antisym_below: "antisym_below n ex_gao"
  by (simp add: antisym_below_def ex_gao_def algebra_simps)

subsection \<open>Four orbitals, first iteration\<close>

lemma ex_init: "omp2_init 4 2 ex_hao ex_gao mat_id = Inr ex_s0"
  by (simp add: omp2_init_def ex_s0_def)

lemma ex_s0_eps:
  "p < 4 \<Longrightarrow> diagonal (build_fock 2 (var_hmo ex_s0) (var_gmo ex_s0)) p
     = 3 + 2 * real p + (real p)\<^sup>2 + (real p - 1)\<^sup>2"
  by (simp add: diagonal_def build_fock_def ex_s0_def ao_to_mo_id ao_to_mo_tei_id lessThan_2
      ex_hao_def ex_gao_def power2_eq_square)

lemma ex_s0_den:
  assumes "a < 2" "b < 2" "i < 2" "j < 2"
  shows "t_amp_denominator 2 (diagonal (build_fock 2 (var_hmo ex_s0) (var_gmo ex_s0))) a b i j < 0"
proof -
  let ?e = "diagonal (build_fock 2 (var_hmo ex_s0) (var_gmo ex_s0))"
  have lo: "?e k \<le> 6" if "k < 2" for k
  proof -
    from that have "k = 0 \<or> k = 1" by auto
    then show ?thesis using ex_s0_eps [of k] by auto
  qed
  have hi: "12 \<le> ?e (2 + c)" if "c < 2" for c
  proof -
    from that have "c = 0 \<or> c = 1" by auto
    then show ?thesis using ex_s0_eps [of "2 + c"] by auto
  qed
  from lo [OF assms(3)] lo [OF assms(4)] hi [OF assms(1)] hi [OF assms(2)]
  show ?thesis by (simp add: t_amp_denominator_def)
qed

lemma ex_s0_den_nonzero:
  "\<forall>a\<in>{..<4 - 2}. \<forall>b\<in>{..<4 - 2}. \<forall>i\<in>{..<2}. \<forall>j\<in>{..<2}.
     t_amp_denominator 2 (diagonal (build_fock 2 (var_hmo ex_s0) (var_gmo ex_s0))) a b i j \<noteq> 0"
  using ex_s0_den by fastforce

lemma ex_s0_gmo:
  "p < 4 \<Longrightarrow> q < 4 \<Longrightarrow> r < 4 \<Longrightarrow> s < 4 \<Longrightarrow> var_gmo ex_s0 p q r s = ex_gao p q r s"
  by (simp add: ex_s0_def ao_to_mo_tei_id)

subsection \<open>Occupied energies above the virtual ones\<close>

lemma ex_deg_init: "omp2_init 4 2 ex_deg_hao ex_gao mat_id = Inr ex_deg_s0"
  by (simp add: omp2_init_def ex_deg_s0_def)

lemma ex_deg_eps:
  "p < 4 \<Longrightarrow> diagonal (build_fock 2 (var_hmo ex_deg_s0) (var_gmo ex_deg_s0)) p
     = (if p < 2 then 1 + 1 / 10 ^ 12 else 1)"
proof -
  assume "p < 4"
  then have "p = 0 \<or> p = 1 \<or> p = 2 \<or> p = 3" by auto
  then show ?thesis
    by (auto simp add: diagonal_def build_fock_def ex_deg_s0_def ao_to_mo_id ao_to_mo_tei_id lessThan_2
      ex_deg_hao_def ex_gao_def)
qed

lemma ex_deg_den:
  assumes "a < 2" "b < 2" "i < 2" "j < 2"
  shows "t_amp_denominator 2 (diagonal (build_fock 2 (var_hmo ex_deg_s0) (var_gmo ex_deg_s0))) a b i j
     = 2 / 10 ^ 12"
  using assms by (simp add: t_amp_denominator_def ex_deg_eps)

lemma ex_deg_den_X:
  assumes "a < 2" "i < 2" 
  shows "- diagonal (build_fock 2 (var_hmo ex_deg_s0) (var_gmo ex_deg_s0)) (2 + a)
         + diagonal (build_fock 2 (var_hmo ex_deg_s0) (var_gmo ex_deg_s0)) i
     = 1 / 10 ^ 12"
  using assms by (simp add: ex_deg_eps)

lemma ex_deg_den_nonzero:
  "\<forall>a\<in>{..<4 - 2}. \<forall>b\<in>{..<4 - 2}. \<forall>i\<in>{..<2}. \<forall>j\<in>{..<2}.
     t_amp_denominator 2 (diagonal (build_fock 2 (var_hmo ex_deg_s0) (var_gmo ex_deg_s0))) a b i j \<noteq> 0"
  by (simp add: ex_deg_den)

lemma ex_deg_den_X_nonzero:
  "\<forall>a\<in>{..<4 - 2}. \<forall>i\<in>{..<2}.
     - diagonal (build_fock 2 (var_hmo ex_deg_s0) (var_gmo ex_deg_s0)) (2 + a)
     + diagonal (build_fock 2 (var_hmo ex_deg_s0) (var_gmo ex_deg_s0)) i \<noteq> 0"
  by (simp add: ex_deg_eps)

lemma ex_deg_gmo:
  "p < 4 \<Longrightarrow> q < 4 \<Longrightarrow> r < 4 \<Longrightarrow> s < 4 \<Longrightarrow> var_gmo ex_deg_s0 p q r s = ex_gao p q r s"
  by (simp add: ex_deg_s0_def ao_to_mo_tei_id)

subsection \<open>Orbitals that are already optimal\<close>

lemma ex_blk_gao_antisym_below: "antisym_below n ex_blk_gao"
  by (simp add: antisym_below_def ex_blk_gao_def algebra_simps)

lemma ex_blk_init: "omp2_init 4 2 ex_hao ex_blk_gao mat_id = Inr ex_blk_s0"
  by (simp add: omp2_init_def ex_blk_s0_def)

lemma ex_blk_hmo: "p < 4 \<Longrightarrow> q < 4 \<Longrightarrow> var_hmo ex_blk_s0 p q = ex_hao p q"
  by (simp add: ex_blk_s0_def ao_to_mo_id)

lemma ex_blk_gmo:
  "p < 4 \<Longrightarrow> q < 4 \<Longrightarrow> r < 4 \<Longrightarrow> s < 4 \<Longrightarrow> var_gmo ex_blk_s0 p q r s = ex_blk_gao p q r s"
  by (simp add: ex_blk_s0_def ao_to_mo_tei_id)

lemma ex_blk_eps:
  "p < 4 \<Longrightarrow> diagonal (build_fock 2 (var_hmo ex_blk_s0) (var_gmo ex_blk_s0)) p = 3 + 2 * real p"
  by (simp add: diagonal_def build_fock_def ex_blk_hmo ex_blk_gmo lessThan_2 ex_hao_def ex_blk_gao_def)

lemma ex_blk_t_val:
  "a < 2 \<Longrightarrow> b < 2 \<Longrightarrow> i < 2 \<Longrightarrow> j < 2 \<Longrightarrow>
     ex_blk_t a b i j = (real a - real b) * (real i - real j) / (2 * real i + 2 * real j - 2 * real a - 2 * real b - 8)"
  by (simp add: ex_blk_t_def t_amp_denominator_def ex_blk_eps ex_blk_gmo ex_blk_gao_def algebra_simps)

lemma ex_blk_opdm_corr:
  assumes "p < 4" "q < 4"
  shows "build_opdm_corr 4 2 ex_blk_t (\<lambda>p q. 0) p q
    = (if p = q then (if p < 2 then - (1/64) else 1/64) else 0)"
proof -
  from assms have "p = 0 \<or> p = 1 \<or> p = 2 \<or> p = 3" "q = 0 \<or> q = 1 \<or> q = 2 \<or> q = 3" by auto
  then show ?thesis
    by (elim disjE; simp add: build_opdm_corr_def ex_blk_t_val lessThan_2)
qed

lemma ex_blk_gradient:
  assumes "a < 2" "i < 2"
  shows "orbital_gradient 2 (generalized_fock 4 (var_hmo ex_blk_s0) (var_gmo ex_blk_s0)
           (build_opdm 2 (build_opdm_corr 4 2 ex_blk_t (\<lambda>p q. 0)))
           (build_tpdm 2 (build_tpdm_corr 2 ex_blk_t (\<lambda>p q r s. 0)) (build_opdm_corr 4 2 ex_blk_t (\<lambda>p q. 0)))) a i = 0"
proof -
  from assms have "a = 0 \<or> a = 1" "i = 0 \<or> i = 1" by auto
  then show ?thesis
    by (elim disjE; simp add: orbital_gradient_def generalized_fock_def lessThan_4 ex_blk_hmo ex_blk_gmo
         ex_hao_def ex_blk_gao_def build_opdm_def build_tpdm_def build_tpdm_corr_def opdm_ref_def
         ex_blk_opdm_corr ex_blk_t_val)
qed

lemma ex_blk_den_nonzero:
  "\<forall>a\<in>{..<4 - 2}. \<forall>b\<in>{..<4 - 2}. \<forall>i\<in>{..<2}. \<forall>j\<in>{..<2}.
     t_amp_denominator 2 (diagonal (build_fock 2 (var_hmo ex_blk_s0) (var_gmo ex_blk_s0))) a b i j \<noteq> 0"
  by (simp add: t_amp_denominator_def ex_blk_eps lessThan_2)

lemma ex_blk_den_X_nonzero:
  "\<forall>a\<in>{..<4 - 2}. \<forall>i\<in>{..<2}.
     - diagonal (build_fock 2 (var_hmo ex_blk_s0) (var_gmo ex_blk_s0)) (2 + a)
     + diagonal (build_fock 2 (var_hmo ex_blk_s0) (var_gmo ex_blk_s0)) i \<noteq> 0"
  by (simp add: ex_blk_eps lessThan_2)

lemma ex_blk_iteration:
  assumes "omp2_iteration 4 2 ex_hao ex_blk_gao E_nuc ex_blk_s0 = Inr (s', loc)"
  shows "var_t_amp s' = ex_blk_t"
    and "loc_F loc = generalized_fock 4 (var_hmo ex_blk_s0) (var_gmo ex_blk_s0)
           (build_opdm 2 (build_opdm_corr 4 2 ex_blk_t (\<lambda>p q. 0)))
           (build_tpdm 2 (build_tpdm_corr 2 ex_blk_t (\<lambda>p q r s. 0))
              (build_opdm_corr 4 2 ex_blk_t (\<lambda>p q. 0)))"
proof -
  from assms obtain t where
    t: "update_t_amp 4 2 (fill_diagonal_0 (build_fock 2 (var_hmo ex_blk_s0) (var_gmo ex_blk_s0)))
        (diagonal (build_fock 2 (var_hmo ex_blk_s0) (var_gmo ex_blk_s0)))
        (var_gmo ex_blk_s0) (var_t_amp ex_blk_s0) = Inr t"
    and eqs: "var_t_amp s' = t"
      "var_opdm_corr s' = build_opdm_corr 4 2 t (var_opdm_corr ex_blk_s0)"
      "var_tpdm_corr s' = build_tpdm_corr 2 t (var_tpdm_corr ex_blk_s0)"
      "loc_opdm loc = build_opdm 2 (var_opdm_corr s')"
      "loc_tpdm loc = build_tpdm 2 (var_tpdm_corr s') (var_opdm_corr s')"
      "loc_F loc = generalized_fock 4 (var_hmo ex_blk_s0) (var_gmo ex_blk_s0) (loc_opdm loc) (loc_tpdm loc)"
    by (rule omp2_iteration_InrE)
  have z: "var_t_amp ex_blk_s0 = (\<lambda>a b i j. 0)" "var_opdm_corr ex_blk_s0 = (\<lambda>p q. 0)"
    "var_tpdm_corr ex_blk_s0 = (\<lambda>p q r s. 0)"
    by (simp_all add: ex_blk_s0_def)
  have "t = ex_blk_t"
    unfolding update_t_amp_Inr [OF t] ex_blk_t_def z by (simp add: t_amp_numerator_def)
  with eqs z show "var_t_amp s' = ex_blk_t"
    and "loc_F loc = generalized_fock 4 (var_hmo ex_blk_s0) (var_gmo ex_blk_s0)
           (build_opdm 2 (build_opdm_corr 4 2 ex_blk_t (\<lambda>p q. 0)))
           (build_tpdm 2 (build_tpdm_corr 2 ex_blk_t (\<lambda>p q r s. 0))
              (build_opdm_corr 4 2 ex_blk_t (\<lambda>p q. 0)))"
    by simp_all
qed

lemma ex_blk_step: "\<exists>loc. omp2_iteration 4 2 ex_hao ex_blk_gao 0 ex_blk_s0 = Inr (ex_blk_s1, loc)"
proof -
  obtain s' loc where "omp2_iteration 4 2 ex_hao ex_blk_gao 0 ex_blk_s0 = Inr (s', loc)"
    using omp2_iteration_returns [OF ex_blk_den_nonzero ex_blk_den_X_nonzero] by blast
  then show ?thesis
    by (simp add: ex_blk_s1_def)
qed

lemma ex_blk_iterate: "omp2_iterate 4 2 ex_hao ex_blk_gao 0 (Suc 0) ex_blk_s0 = Inr ex_blk_s1"
  using ex_blk_step by auto

lemma ex_blk_s1_C: "p < 4 \<Longrightarrow> q < 4 \<Longrightarrow> var_C ex_blk_s1 p q = mat_id p q"
proof -
  assume pq: "p < 4" "q < 4"
  from ex_blk_step obtain loc where
    st: "omp2_iteration 4 2 ex_hao ex_blk_gao 0 ex_blk_s0 = Inr (ex_blk_s1, loc)"
    by blast
  have "zero_blocks 2 ex_blk_s0"
    using ex_blk_init by (rule omp2_init_zero_blocks)
  moreover have "\<forall>a\<in>{..<4 - 2}. \<forall>i\<in>{..<2}. orbital_gradient 2 (loc_F loc) a i = 0"
    unfolding ex_blk_iteration(2) [OF st] by (simp add: ex_blk_gradient)
  ultimately have "var_C ex_blk_s1 p q = var_C ex_blk_s0 p q"
    using st pq by (intro zero_gradient_step [THEN conjunct2, THEN conjunct2])
  then show ?thesis
    by (simp add: ex_blk_s0_def)
qed

lemma ex_blk_s1_hmo: "p < 4 \<Longrightarrow> q < 4 \<Longrightarrow> var_hmo ex_blk_s1 p q = ex_hao p q"
proof -
  assume pq: "p < 4" "q < 4"
  from ex_blk_step obtain loc where
    st: "omp2_iteration 4 2 ex_hao ex_blk_gao 0 ex_blk_s0 = Inr (ex_blk_s1, loc)"
    by blast
  then have "var_hmo ex_blk_s1 = ao_to_mo 4 ex_hao (var_C ex_blk_s1)"
    by (rule omp2_iteration_InrE)
  moreover have "ao_to_mo 4 ex_hao (var_C ex_blk_s1) p q = ao_to_mo 4 ex_hao mat_id p q"
    using pq by (intro ao_to_mo_cong ex_blk_s1_C)
  ultimately show ?thesis
    using pq by (simp add: ao_to_mo_id)
qed

lemma ex_blk_s1_gmo:
  "p < 4 \<Longrightarrow> q < 4 \<Longrightarrow> r < 4 \<Longrightarrow> s < 4 \<Longrightarrow> var_gmo ex_blk_s1 p q r s = ex_blk_gao p q r s"
proof -
  assume pq: "p < 4" "q < 4" "r < 4" "s < 4"
  from ex_blk_step obtain loc where
    st: "omp2_iteration 4 2 ex_hao ex_blk_gao 0 ex_blk_s0 = Inr (ex_blk_s1, loc)"
    by blast
  then have "var_gmo ex_blk_s1 = ao_to_mo_tei 4 ex_blk_gao (var_C ex_blk_s1)"
    by (rule omp2_iteration_InrE)
  moreover have "ao_to_mo_tei 4 ex_blk_gao (var_C ex_blk_s1) p q r s
      = ao_to_mo_tei 4 ex_blk_gao mat_id p q r s"
    using pq by (intro ao_to_mo_tei_cong ex_blk_s1_C)
  ultimately show ?thesis
    using pq by (simp add: ao_to_mo_tei_id)
qed

lemma ex_blk_s1_t: "var_t_amp ex_blk_s1 = ex_blk_t"
  using ex_blk_step ex_blk_iteration(1) by blast

lemma ex_blk_s1_f:
  "p < 4 \<Longrightarrow> q < 4 \<Longrightarrow> build_fock 2 (var_hmo ex_blk_s1) (var_gmo ex_blk_s1) p q
     = (if p = q then 3 + 2 * real p else 0)"
  by (simp add: build_fock_def ex_blk_s1_hmo ex_blk_s1_gmo lessThan_2 ex_hao_def ex_blk_gao_def)

lemma ex_blk_s1_den_nonzero:
  "\<forall>a\<in>{..<4 - 2}. \<forall>b\<in>{..<4 - 2}. \<forall>i\<in>{..<2}. \<forall>j\<in>{..<2}.
     t_amp_denominator 2 (diagonal (build_fock 2 (var_hmo ex_blk_s1) (var_gmo ex_blk_s1))) a b i j \<noteq> 0"
  by (simp add: t_amp_denominator_def diagonal_def ex_blk_s1_f lessThan_2)

lemma ex_blk_s1_update:
  "\<exists>t. update_t_amp 4 2 (fill_diagonal_0 (build_fock 2 (var_hmo ex_blk_s1) (var_gmo ex_blk_s1)))
      (diagonal (build_fock 2 (var_hmo ex_blk_s1) (var_gmo ex_blk_s1)))
      (var_gmo ex_blk_s1) (var_t_amp ex_blk_s1) = Inr t \<and> t 0 1 0 1 = - (1 / 8)"
proof -
  let ?f = "build_fock 2 (var_hmo ex_blk_s1) (var_gmo ex_blk_s1)"
  have "t_amp_numerator 4 2 (fill_diagonal_0 ?f) (var_gmo ex_blk_s1) (var_t_amp ex_blk_s1) 0 1 0 1
       / t_amp_denominator 2 (diagonal ?f) 0 1 0 1 = - (1 / 8)"
    by (simp add: t_amp_numerator_def t_amp_denominator_def diagonal_def fill_diagonal_0_def
        ex_blk_s1_f ex_blk_s1_gmo ex_blk_s1_t ex_blk_t_val lessThan_2 ex_blk_gao_def)
  with update_t_amp_InrI [OF ex_blk_s1_den_nonzero] show ?thesis
    by blast
qed

section \<open>The claims\<close>

subsection \<open>C1: the divisions are unguarded\<close>

text \<open>
  C1, as the code has it. No iteration compares a denominator with a tolerance, and no
  run ends in a ``degenerate orbital energies'' error. Whenever no amplitude denominator
  \<open>eps[i] + eps[j] - eps[a] - eps[b]\<close> and no rotation denominator \<open>eps[i] - eps[a]\<close> is
  exactly zero, however small they are and whichever of the occupied and virtual energies
  is larger, both divisions are performed and the iteration returns its arrays: the
  amplitude array is the plain quotient, and so is the virtual-occupied block of \<open>X\<close>.
\<close>

theorem C1_division_unguarded:
  assumes "\<forall>a\<in>{..<nso - nocc}. \<forall>b\<in>{..<nso - nocc}. \<forall>i\<in>{..<nocc}. \<forall>j\<in>{..<nocc}.
         t_amp_denominator nocc (diagonal (build_fock nocc (var_hmo s) (var_gmo s))) a b i j \<noteq> 0"
    and "\<forall>a\<in>{..<nso - nocc}. \<forall>i\<in>{..<nocc}.
             - diagonal (build_fock nocc (var_hmo s) (var_gmo s)) (nocc + a)
             + diagonal (build_fock nocc (var_hmo s) (var_gmo s)) i \<noteq> 0"
  shows "\<exists>s' loc. omp2_iteration nso nocc hao gao E_nuc s = Inr (s', loc)
      \<and> var_t_amp s' = (\<lambda>a b i j.
            t_amp_numerator nso nocc (fill_diagonal_0 (build_fock nocc (var_hmo s) (var_gmo s)))
              (var_gmo s) (var_t_amp s) a b i j
            / t_amp_denominator nocc (diagonal (build_fock nocc (var_hmo s) (var_gmo s))) a b i j)
      \<and> var_X s' = (\<lambda>p q. if nocc \<le> p \<and> q < nocc
            then orbital_gradient nocc (loc_F loc) (p - nocc) q
                 / (- diagonal (build_fock nocc (var_hmo s) (var_gmo s)) (nocc + (p - nocc))
                    + diagonal (build_fock nocc (var_hmo s) (var_gmo s)) q)
            else var_X s p q)"
proof -
  from assms obtain s' loc where st: "omp2_iteration nso nocc hao gao E_nuc s = Inr (s', loc)"
    using omp2_iteration_returns by blast
  from st obtain t X where
    t: "update_t_amp nso nocc (fill_diagonal_0 (build_fock nocc (var_hmo s) (var_gmo s)))
        (diagonal (build_fock nocc (var_hmo s) (var_gmo s))) (var_gmo s) (var_t_amp s) = Inr t"
    and X: "update_X nso nocc (loc_F loc) (diagonal (build_fock nocc (var_hmo s) (var_gmo s)))
        (var_X s) = Inr X"
    and eq: "var_t_amp s' = t" "var_X s' = X"
    by (rule omp2_iteration_InrE)
  have 1: "var_t_amp s' = (\<lambda>a b i j.
            t_amp_numerator nso nocc (fill_diagonal_0 (build_fock nocc (var_hmo s) (var_gmo s)))
              (var_gmo s) (var_t_amp s) a b i j
            / t_amp_denominator nocc (diagonal (build_fock nocc (var_hmo s) (var_gmo s))) a b i j)"
    unfolding eq using t by (rule update_t_amp_Inr)
  have 2: "var_X s' = (\<lambda>p q. if nocc \<le> p \<and> q < nocc
            then orbital_gradient nocc (loc_F loc) (p - nocc) q
                 / (- diagonal (build_fock nocc (var_hmo s) (var_gmo s)) (nocc + (p - nocc))
                    + diagonal (build_fock nocc (var_hmo s) (var_gmo s)) q)
            else var_X s p q)"
    unfolding eq using X by (rule update_X_Inr)
  from st 1 2 show ?thesis
    by blast
qed

text \<open>
  C1 as stated fails: with occupied energies above the virtual ones and the amplitude
  denominator \<open>2 \<cdot> 10\<^sup>-\<^sup>1\<^sup>2\<close>, the update divides and returns the amplitude
  \<open>5 \<cdot> 10\<^sup>1\<^sup>1\<close>, and the whole iteration returns its arrays.
\<close>

theorem C1_degenerate_energies_counterexample:
  "omp2_init 4 2 ex_deg_hao ex_gao mat_id = Inr ex_deg_s0
   \<and> diagonal (build_fock 2 (var_hmo ex_deg_s0) (var_gmo ex_deg_s0)) 0
       > diagonal (build_fock 2 (var_hmo ex_deg_s0) (var_gmo ex_deg_s0)) 2
   \<and> \<bar>t_amp_denominator 2 (diagonal (build_fock 2 (var_hmo ex_deg_s0) (var_gmo ex_deg_s0))) 0 1 0 1\<bar>
       < 1 / 10 ^ 8
   \<and> \<not> isl (update_t_amp 4 2 (fill_diagonal_0 (build_fock 2 (var_hmo ex_deg_s0) (var_gmo ex_deg_s0)))
              (diagonal (build_fock 2 (var_hmo ex_deg_s0) (var_gmo ex_deg_s0)))
              (var_gmo ex_deg_s0) (var_t_amp ex_deg_s0))
   \<and> projr (update_t_amp 4 2 (fill_diagonal_0 (build_fock 2 (var_hmo ex_deg_s0) (var_gmo ex_deg_s0)))
              (diagonal (build_fock 2 (var_hmo ex_deg_s0) (var_gmo ex_deg_s0)))
              (var_gmo ex_deg_s0) (var_t_amp ex_deg_s0)) 0 1 0 1 = 5 * 10 ^ 11
   \<and> \<not> isl (omp2_iteration 4 2 ex_deg_hao ex_gao 0 ex_deg_s0)"
proof -
  let ?f = "build_fock 2 (var_hmo ex_deg_s0) (var_gmo ex_deg_s0)"
  have e: "diagonal ?f 0 > diagonal ?f 2"
    by (simp add: ex_deg_eps)
  have d: "\<bar>t_amp_denominator 2 (diagonal ?f) 0 1 0 1\<bar> < 1 / 10 ^ 8"
    by (simp add: ex_deg_den)
  have u: "update_t_amp 4 2 (fill_diagonal_0 ?f) (diagonal ?f) (var_gmo ex_deg_s0) (var_t_amp ex_deg_s0)
     = Inr (\<lambda>a b i j. t_amp_numerator 4 2 (fill_diagonal_0 ?f) (var_gmo ex_deg_s0) (var_t_amp ex_deg_s0) a b i j
                      / t_amp_denominator 2 (diagonal ?f) a b i j)"
    using ex_deg_den_nonzero by (rule update_t_amp_InrI)
  have "var_t_amp ex_deg_s0 = (\<lambda>a b i j. 0)"
    by (simp add: ex_deg_s0_def)
  then have v: "t_amp_numerator 4 2 (fill_diagonal_0 ?f) (var_gmo ex_deg_s0) (var_t_amp ex_deg_s0) 0 1 0 1
                      / t_amp_denominator 2 (diagonal ?f) 0 1 0 1 = 5 * 10 ^ 11"
    by (simp add: t_amp_numerator_def ex_deg_den ex_deg_gmo ex_gao_def)
  have "\<exists>s' loc. omp2_iteration 4 2 ex_deg_hao ex_gao 0 ex_deg_s0 = Inr (s', loc)"
    using ex_deg_den_nonzero ex_deg_den_X_nonzero by (rule omp2_iteration_returns)
  then have it: "\<not> isl (omp2_iteration 4 2 ex_deg_hao ex_gao 0 ex_deg_s0)"
    by auto
  from ex_deg_init e d v it show ?thesis
    unfolding u by simp
qed

theorem C1_division_unguarded_witness:
  "t_amp_denominator 2 (diagonal (build_fock 2 (var_hmo ex_deg_s0) (var_gmo ex_deg_s0))) 0 1 0 1
     = 2 / 10 ^ 12
   \<and> - diagonal (build_fock 2 (var_hmo ex_deg_s0) (var_gmo ex_deg_s0)) 2
     + diagonal (build_fock 2 (var_hmo ex_deg_s0) (var_gmo ex_deg_s0)) 0 = 1 / 10 ^ 12
   \<and> (\<exists>s' loc. omp2_iteration 4 2 ex_deg_hao ex_gao 0 ex_deg_s0 = Inr (s', loc)
         \<and> var_t_amp s' 0 1 0 1 = 5 * 10 ^ 11
         \<and> var_X s' 2 0 = orbital_gradient 2 (loc_F loc) 0 0 * 10 ^ 12)"
proof -
  let ?f = "build_fock 2 (var_hmo ex_deg_s0) (var_gmo ex_deg_s0)"
  from C1_division_unguarded [OF ex_deg_den_nonzero ex_deg_den_X_nonzero, of ex_deg_hao ex_gao 0]
  obtain s' loc where st: "omp2_iteration 4 2 ex_deg_hao ex_gao 0 ex_deg_s0 = Inr (s', loc)"
    and t: "var_t_amp s' = (\<lambda>a b i j.
            t_amp_numerator 4 2 (fill_diagonal_0 ?f) (var_gmo ex_deg_s0) (var_t_amp ex_deg_s0) a b i j
            / t_amp_denominator 2 (diagonal ?f) a b i j)"
    and X: "var_X s' = (\<lambda>p q. if 2 \<le> p \<and> q < 2
            then orbital_gradient 2 (loc_F loc) (p - 2) q
                 / (- diagonal ?f (2 + (p - 2)) + diagonal ?f q)
            else var_X ex_deg_s0 p q)"
    by blast
  have "var_t_amp ex_deg_s0 = (\<lambda>a b i j. 0)"
    by (simp add: ex_deg_s0_def)
  then have 1: "var_t_amp s' 0 1 0 1 = 5 * 10 ^ 11"
    unfolding t by (simp add: t_amp_numerator_def ex_deg_den ex_deg_gmo ex_gao_def)
  have 2: "var_X s' 2 0 = orbital_gradient 2 (loc_F loc) 0 0 * 10 ^ 12"
    unfolding X by (simp add: ex_deg_eps)
  have 3: "t_amp_denominator 2 (diagonal ?f) 0 1 0 1 = 2 / 10 ^ 12"
    by (simp add: ex_deg_den)
  have 4: "- diagonal ?f 2 + diagonal ?f 0 = 1 / 10 ^ 12"
    by (simp add: ex_deg_eps)
  from st 1 2 3 4 show ?thesis
    by blast
qed

subsection \<open>C2: the amplitude update formula\<close>

text \<open>
  C2. In every iteration the updated amplitude array is
  \<open>(gmo_vvoo + (fprime_vv \<cdot> t_prev antisymmetrized over a, b)
     - (fprime_oo \<cdot> t_prev antisymmetrized over i, j)) / D\<close> entry by entry, with
  \<open>D[a,b,i,j] = eps[i] + eps[j] - eps[a] - eps[b]\<close>: the update of the code returns the
  array \<open>spec_t_new\<close> written from the specification (no denominator being zero).
\<close>

theorem C2_t_amp_update_formula:
  assumes "\<forall>a\<in>{..<nso - nocc}. \<forall>b\<in>{..<nso - nocc}. \<forall>i\<in>{..<nocc}. \<forall>j\<in>{..<nocc}.
             spec_D nocc eps a b i j \<noteq> 0"
  shows "update_t_amp nso nocc fprime eps gmo t_prev
           = Inr (spec_t_new nso nocc fprime gmo eps t_prev)"
proof -
  have D: "t_amp_denominator nocc eps = spec_D nocc eps"
    by (simp add: t_amp_denominator_def spec_D_def fun_eq_iff)
  have N: "t_amp_numerator nso nocc fprime gmo t_prev a b i j / spec_D nocc eps a b i j
      = spec_t_new nso nocc fprime gmo eps t_prev a b i j" for a b i j
    by (simp add: t_amp_numerator_def spec_t_new_def antisymmetrize_ab_def
        antisymmetrize_ij_def Let_def)
  from assms have "update_t_amp nso nocc fprime eps gmo t_prev =
     Inr (\<lambda>a b i j. t_amp_numerator nso nocc fprime gmo t_prev a b i j
                      / t_amp_denominator nocc eps a b i j)"
    unfolding D [symmetric] by (rule update_t_amp_InrI)
  then show ?thesis
    unfolding D N by simp
qed

theorem C2_t_amp_update_formula_witness:
  "spec_D 2 ex_eps 0 1 0 1 = - 12
   \<and> update_t_amp 4 2 ex_fprime ex_eps ex_gao ex_t_prev
       = Inr (spec_t_new 4 2 ex_fprime ex_gao ex_eps ex_t_prev)
   \<and> spec_t_new 4 2 ex_fprime ex_gao ex_eps ex_t_prev 0 1 0 1 = - (13 / 6)"
proof -
  have d: "\<forall>a\<in>{..<4 - 2}. \<forall>b\<in>{..<4 - 2}. \<forall>i\<in>{..<2}. \<forall>j\<in>{..<2}. spec_D 2 ex_eps a b i j \<noteq> 0"
    by (simp add: spec_D_def ex_eps_def)
  have d1: "spec_D 2 ex_eps 0 1 0 1 = - 12"
    by (simp add: spec_D_def ex_eps_def)
  have v: "spec_t_new 4 2 ex_fprime ex_gao ex_eps ex_t_prev 0 1 0 1 = - (13 / 6)"
    by (simp add: spec_t_new_def spec_D_def ex_eps_def ex_fprime_def ex_gao_def ex_t_prev_def
        lessThan_2 antisymmetrize_ab_def antisymmetrize_ij_def fill_diagonal_0_def)
  from C2_t_amp_update_formula [OF d] d1 v show ?thesis
    by blast
qed

subsection \<open>C3: the amplitudes stay antisymmetric\<close>

text \<open>
  C3. In every iteration of the loop, started from the zero amplitude array and a
  two-electron array \<open>gao\<close> with both pair antisymmetries, the amplitude array that the
  update produces satisfies \<open>t[a,b,i,j] = - t[b,a,i,j] = - t[a,b,j,i]\<close>. Iteration \<open>k\<close>
  starts from the state reached by \<open>k\<close> runs of the body.
\<close>

theorem C3_t_amp_antisymmetric:
  assumes "antisym_below nso gao"
    and "omp2_init nso nocc hao gao C0 = Inr s0"
    and "omp2_iterate nso nocc hao gao E_nuc k s0 = Inr s"
    and "update_t_amp nso nocc (fill_diagonal_0 (build_fock nocc (var_hmo s) (var_gmo s)))
           (diagonal (build_fock nocc (var_hmo s) (var_gmo s))) (var_gmo s) (var_t_amp s) = Inr t"
  shows "t a b i j = - t b a i j \<and> t a b i j = - t a b j i"
proof -
  have "omp2_inv s0"
    using assms(1,2) by (rule omp2_init_inv)
  with assms(1) have "omp2_inv s"
    using assms(3) by (rule omp2_iterate_inv)
  then have "antisym (var_gmo s)" "antisym (var_t_amp s)"
    by (simp_all add: omp2_inv_def)
  then have "antisym t"
    using assms(4) by (rule update_t_amp_antisym)
  then show ?thesis
    unfolding antisym_def by blast
qed

theorem C3_t_amp_antisymmetric_witness:
  "antisym_below 4 ex_blk_gao
   \<and> omp2_init 4 2 ex_hao ex_blk_gao mat_id = Inr ex_blk_s0
   \<and> omp2_iterate 4 2 ex_hao ex_blk_gao 0 (Suc 0) ex_blk_s0 = Inr ex_blk_s1
   \<and> (\<exists>t. update_t_amp 4 2 (fill_diagonal_0 (build_fock 2 (var_hmo ex_blk_s1) (var_gmo ex_blk_s1)))
              (diagonal (build_fock 2 (var_hmo ex_blk_s1) (var_gmo ex_blk_s1)))
              (var_gmo ex_blk_s1) (var_t_amp ex_blk_s1) = Inr t
          \<and> t 0 1 0 1 = - (1 / 8) \<and> t 1 0 0 1 = 1 / 8 \<and> t 0 1 1 0 = 1 / 8)"
proof -
  from ex_blk_s1_update obtain t where
    u: "update_t_amp 4 2 (fill_diagonal_0 (build_fock 2 (var_hmo ex_blk_s1) (var_gmo ex_blk_s1)))
              (diagonal (build_fock 2 (var_hmo ex_blk_s1) (var_gmo ex_blk_s1)))
              (var_gmo ex_blk_s1) (var_t_amp ex_blk_s1) = Inr t"
    and v: "t 0 1 0 1 = - (1 / 8)"
    by blast
  note a = ex_blk_gao_antisym_below [of 4]
  from C3_t_amp_antisymmetric [OF a ex_blk_init ex_blk_iterate u, of 1 0 0 1]
       C3_t_amp_antisymmetric [OF a ex_blk_init ex_blk_iterate u, of 0 1 1 0] v
  have "t 1 0 0 1 = 1 / 8" "t 0 1 1 0 = 1 / 8"
    by simp_all
  with a ex_blk_init ex_blk_iterate u v show ?thesis
    by blast
qed

subsection \<open>C4: the rotation operator is orthogonal\<close>

text \<open>
  C4. The rotation operator \<open>U = expm(X - X\<^sup>T)\<close> is orthogonal, \<open>U\<^sup>T \<cdot> U = 1\<close>, for every
  generator \<open>X\<close>, and so is \<open>expm(A)\<close> for every antisymmetric \<open>A\<close>, the zero matrix
  included. \<open>expm\<close> is the exponential series in exact arithmetic.
\<close>

theorem C4_rotation_operator_orthogonal:
  "(\<forall>i\<in>{..<n}. \<forall>j\<in>{..<n}.
      (\<Sum>m<n. rotation_operator n X m i * rotation_operator n X m j) = (if i = j then 1 else 0))
   \<and> ((\<forall>p\<in>{..<n}. \<forall>q\<in>{..<n}. A q p = - A p q) \<longrightarrow>
        (\<forall>i\<in>{..<n}. \<forall>j\<in>{..<n}.
           (\<Sum>m<n. expm n A m i * expm n A m j) = (if i = j then 1 else 0)))"
proof (intro conjI impI ballI)
  fix i j
  assume "i \<in> {..<n}" "j \<in> {..<n}"
  then have ij: "i < n" "j < n"
    by simp_all
  have "(\<Sum>m<n. expm n (\<lambda>p q. X p q - X q p) m i * expm n (\<lambda>p q. X p q - X q p) m j)
      = (if i = j then 1 else 0)"
  proof (rule expm_orthogonal)
    show "X q p - X p q = - (X p q - X q p)" for p q
      by simp
  qed (rule ij)+
  then show "(\<Sum>m<n. rotation_operator n X m i * rotation_operator n X m j) = (if i = j then 1 else 0)"
    by (simp only: rotation_operator_def)
next
  fix i j
  assume a: "\<forall>p\<in>{..<n}. \<forall>q\<in>{..<n}. A q p = - A p q"
  assume "i \<in> {..<n}" "j \<in> {..<n}"
  then have ij: "i < n" "j < n"
    by simp_all
  from a have "\<And>p q. p < n \<Longrightarrow> q < n \<Longrightarrow> A q p = - A p q"
    by blast
  then show "(\<Sum>m<n. expm n A m i * expm n A m j) = (if i = j then 1 else 0)"
    using ij by (rule expm_orthogonal)
qed

theorem C4_rotation_operator_orthogonal_witness:
  "(\<Sum>m<2. rotation_operator 2 ex_X m 0 * rotation_operator 2 ex_X m 1) = 0
   \<and> (\<Sum>m<2. rotation_operator 2 ex_X m 1 * rotation_operator 2 ex_X m 1) = 1
   \<and> (\<Sum>m<2. expm 2 (\<lambda>p q. real p - real q) m 0 * expm 2 (\<lambda>p q. real p - real q) m 0) = 1
   \<and> (\<Sum>m<2. expm 2 (\<lambda>p q. 0) m 0 * expm 2 (\<lambda>p q. 0) m 1) = 0"
proof -
  note th1 = C4_rotation_operator_orthogonal [of 2 ex_X "\<lambda>p q. real p - real q"]
  note th2 = C4_rotation_operator_orthogonal [of 2 ex_X "\<lambda>p q. 0"]
  have a1: "\<forall>p\<in>{..<2::nat}. \<forall>q\<in>{..<2::nat}. real q - real p = - (real p - real q)"
    by simp
  have a2: "\<forall>p\<in>{..<2::nat}. \<forall>q\<in>{..<2::nat}. (0::real) = - 0"
    by simp
  from ball2D [OF conjunct1 [OF th1], of 0 1] ball2D [OF conjunct1 [OF th1], of 1 1]
  have 1: "(\<Sum>m<2. rotation_operator 2 ex_X m 0 * rotation_operator 2 ex_X m 1) = 0"
    "(\<Sum>m<2. rotation_operator 2 ex_X m 1 * rotation_operator 2 ex_X m 1) = 1"
    by simp_all
  from ball2D [OF mp [OF conjunct2 [OF th1] a1], of 0 0]
  have 2: "(\<Sum>m<2. expm 2 (\<lambda>p q. real p - real q) m 0 * expm 2 (\<lambda>p q. real p - real q) m 0) = 1"
    by simp
  from ball2D [OF mp [OF conjunct2 [OF th2] a2], of 0 1]
  have 3: "(\<Sum>m<2. expm 2 (\<lambda>p q. 0) m 0 * expm 2 (\<lambda>p q. 0) m 1) = 0"
    by simp
  from 1 2 3 show ?thesis
    by blast
qed

subsection \<open>C5: the transform keeps the antisymmetry\<close>

text \<open>
  C5. For every two-electron array \<open>g\<close> with \<open>g[p,q,r,s] = - g[q,p,r,s] = - g[p,q,s,r]\<close>
  on its \<open>n\<close> indices and every coefficient matrix \<open>C\<close>, the array returned by
  \<^verbatim>\<open>ao_to_mo_tei\<close> has the same two antisymmetries.
\<close>

theorem C5_ao_to_mo_tei_antisymmetric:
  assumes "antisym_below n gao"
  shows "ao_to_mo_tei n gao C P Q R S = - ao_to_mo_tei n gao C Q P R S
       \<and> ao_to_mo_tei n gao C P Q R S = - ao_to_mo_tei n gao C P Q S R"
  using ao_to_mo_tei_swap12 [OF assms] ao_to_mo_tei_swap34 [OF assms] by blast

theorem C5_ao_to_mo_tei_antisymmetric_witness:
  "antisym_below 2 ex_gao
   \<and> ao_to_mo_tei 2 ex_gao ex_C 0 1 0 1 = 4
   \<and> ao_to_mo_tei 2 ex_gao ex_C 1 0 0 1 = - 4
   \<and> ao_to_mo_tei 2 ex_gao ex_C 0 1 1 0 = - 4"
proof -
  have v: "ao_to_mo_tei 2 ex_gao ex_C 0 1 0 1 = 4"
    by (simp add: ao_to_mo_tei_def ex_gao_def ex_C_def lessThan_2)
  have a: "antisym_below 2 ex_gao"
    by (rule ex_gao_antisym_below)
  from C5_ao_to_mo_tei_antisymmetric [OF a, of ex_C 1 0 0 1]
       C5_ao_to_mo_tei_antisymmetric [OF a, of ex_C 0 1 1 0] v a
  show ?thesis by simp
qed

subsection \<open>C6: how the loop ends\<close>

text \<open>
  C6, as the code has it. The loop leaves by \<^verbatim>\<open>break\<close> in the first iteration
  \<open>k < MAXITER\<close> whose energy satisfies \<open>\<bar>E\<^sub>k - E_prev\<bar> < E_conv\<close>, where \<open>E_prev\<close> is \<open>0.0\<close>
  before the first iteration and the energy of the iteration before afterwards; when no
  iteration satisfies it, the loop runs all \<open>MAXITER\<close> iterations and ends with
  \<^verbatim>\<open>E_OMP2_old\<close> equal to the last \<^verbatim>\<open>E_OMP2\<close>. The variables listed are all the loop
  leaves; no status is among them.
\<close>

theorem C6_loop_exit:
  "(k < MAXITER \<and> (\<forall>j. j \<le> k \<longrightarrow> body (st j) = Inr (st (Suc j), E j))
      \<and> (\<forall>j. j < k \<longrightarrow> \<not> converged_at E E_conv j) \<and> converged_at E E_conv k
    \<longrightarrow> omp2_loop body E_conv MAXITER 0
          \<lparr>end_state = st 0, end_iteration = None, end_E_OMP2_old = 0\<rparr>
        = Inr (Break, \<lparr>end_state = st (Suc k), end_iteration = Some (k, E k),
                       end_E_OMP2_old = (if k = 0 then 0 else E (k - 1))\<rparr>))
   \<and> ((\<forall>j. j < MAXITER \<longrightarrow> body (st j) = Inr (st (Suc j), E j) \<and> \<not> converged_at E E_conv j)
    \<longrightarrow> omp2_loop body E_conv MAXITER 0
          \<lparr>end_state = st 0, end_iteration = None, end_E_OMP2_old = 0\<rparr>
        = Inr (Exhausted,
               \<lparr>end_state = st MAXITER,
                end_iteration = (if MAXITER = 0 then None else Some (MAXITER - 1, E (MAXITER - 1))),
                end_E_OMP2_old = (if MAXITER = 0 then 0 else E (MAXITER - 1))\<rparr>))"
proof (intro conjI impI)
  have v0: "\<lparr>end_state = st 0, end_iteration = None, end_E_OMP2_old = 0\<rparr> = vars_at st E 0"
    by (simp add: vars_at_def)
  {
    assume a: "k < MAXITER \<and> (\<forall>j. j \<le> k \<longrightarrow> body (st j) = Inr (st (Suc j), E j))
      \<and> (\<forall>j. j < k \<longrightarrow> \<not> converged_at E E_conv j) \<and> converged_at E E_conv k"
    then have "omp2_loop body E_conv MAXITER 0 (vars_at st E 0)
       = Inr (Break, \<lparr>end_state = st (Suc k), end_iteration = Some (k, E k),
                      end_E_OMP2_old = (if k = 0 then 0 else E (k - 1))\<rparr>)"
      by (intro omp2_loop_break) simp_all
    then show "omp2_loop body E_conv MAXITER 0
          \<lparr>end_state = st 0, end_iteration = None, end_E_OMP2_old = 0\<rparr>
        = Inr (Break, \<lparr>end_state = st (Suc k), end_iteration = Some (k, E k),
                       end_E_OMP2_old = (if k = 0 then 0 else E (k - 1))\<rparr>)"
      by (simp only: v0)
  }
  {
    assume "\<forall>j. j < MAXITER \<longrightarrow> body (st j) = Inr (st (Suc j), E j) \<and> \<not> converged_at E E_conv j"
    then have "omp2_loop body E_conv MAXITER 0 (vars_at st E 0)
        = Inr (Exhausted, vars_at st E (0 + MAXITER))"
      by (intro omp2_loop_exhausted) simp
    then show "omp2_loop body E_conv MAXITER 0
          \<lparr>end_state = st 0, end_iteration = None, end_E_OMP2_old = 0\<rparr>
        = Inr (Exhausted,
               \<lparr>end_state = st MAXITER,
                end_iteration = (if MAXITER = 0 then None else Some (MAXITER - 1, E (MAXITER - 1))),
                end_E_OMP2_old = (if MAXITER = 0 then 0 else E (MAXITER - 1))\<rparr>)"
      unfolding v0 by (simp add: vars_at_def)
  }
qed

text \<open>
  C6 as stated fails: nothing reports how the loop ended. With \<open>E_conv = 1\<close> and
  \<open>MAXITER = 2\<close>, the energies \<open>1, 3\<close> exhaust the loop and the energies \<open>3, 3\<close> converge in
  the last iteration, and both runs leave the same values in every variable.
\<close>

theorem C6_no_status_counterexample:
  "omp2_loop (energy_body (\<lambda>k. if k = 0 then 1 else 3)) 1 2 0
          \<lparr>end_state = 0, end_iteration = None, end_E_OMP2_old = 0\<rparr>
        = Inr (Exhausted, \<lparr>end_state = 2, end_iteration = Some (1, 3), end_E_OMP2_old = 3\<rparr>)
   \<and> omp2_loop (energy_body (\<lambda>k. 3)) 1 2 0
          \<lparr>end_state = 0, end_iteration = None, end_E_OMP2_old = 0\<rparr>
        = Inr (Break, \<lparr>end_state = 2, end_iteration = Some (1, 3), end_E_OMP2_old = 3\<rparr>)"
  by (simp add: numeral_2_eq_2 energy_body_def)

theorem C6_loop_exit_witness:
  "converged_at (\<lambda>k. 3) 1 1 \<and> \<not> converged_at (\<lambda>k. 3) 1 0
   \<and> omp2_loop (energy_body (\<lambda>k. 3)) 1 2 0
          \<lparr>end_state = 0, end_iteration = None, end_E_OMP2_old = 0\<rparr>
        = Inr (Break, \<lparr>end_state = 2, end_iteration = Some (1, 3), end_E_OMP2_old = 3\<rparr>)
   \<and> \<not> converged_at (\<lambda>k. if k = 0 then 1 else 3) 1 0
   \<and> \<not> converged_at (\<lambda>k. if k = 0 then 1 else 3) 1 1
   \<and> omp2_loop (energy_body (\<lambda>k. if k = 0 then 1 else 3)) 1 2 0
          \<lparr>end_state = 0, end_iteration = None, end_E_OMP2_old = 0\<rparr>
        = Inr (Exhausted, \<lparr>end_state = 2, end_iteration = Some (1, 3), end_E_OMP2_old = 3\<rparr>)"
proof -
  have b: "1 < (2::nat) \<and> (\<forall>j. j \<le> 1 \<longrightarrow> energy_body (\<lambda>k. 3) j = Inr (Suc j, 3))
      \<and> (\<forall>j. j < 1 \<longrightarrow> \<not> converged_at (\<lambda>k. 3) 1 j) \<and> converged_at (\<lambda>k. 3) 1 1"
    by (simp add: energy_body_def converged_at_def)
  have e: "\<forall>j. j < 2 \<longrightarrow> energy_body (\<lambda>k. if k = 0 then 1 else 3) j
                        = Inr (Suc j, if j = 0 then 1 else 3)
                     \<and> \<not> converged_at (\<lambda>k. if k = 0 then 1 else 3) 1 j"
    by (auto simp add: energy_body_def converged_at_def less_2_cases_iff)
  from C6_loop_exit [of 1 2 "energy_body (\<lambda>k. 3)" "\<lambda>j. j" "\<lambda>k. 3" 1] b
  have 1: "omp2_loop (energy_body (\<lambda>k. 3)) 1 2 0
          \<lparr>end_state = 0, end_iteration = None, end_E_OMP2_old = 0\<rparr>
        = Inr (Break, \<lparr>end_state = 2, end_iteration = Some (1, 3), end_E_OMP2_old = 3\<rparr>)"
    by simp
  from C6_loop_exit [of 1 2 "energy_body (\<lambda>k. if k = 0 then 1 else 3)" "\<lambda>j. j"
      "\<lambda>k. if k = 0 then 1 else 3" 1] e
  have 2: "omp2_loop (energy_body (\<lambda>k. if k = 0 then 1 else 3)) 1 2 0
          \<lparr>end_state = 0, end_iteration = None, end_E_OMP2_old = 0\<rparr>
        = Inr (Exhausted, \<lparr>end_state = 2, end_iteration = Some (1, 3), end_E_OMP2_old = 3\<rparr>)"
    by simp
  have c: "converged_at (\<lambda>k. 3) 1 1" "\<not> converged_at (\<lambda>k. 3) 1 0"
    "\<not> converged_at (\<lambda>k. if k = 0 then 1 else 3) 1 0"
    "\<not> converged_at (\<lambda>k. if k = 0 then 1 else 3) 1 1"
    by (simp_all add: converged_at_def)
  from c 1 2 show ?thesis
    by blast
qed

subsection \<open>C7: the two-particle density\<close>

text \<open>
  C7. In every iteration the two-particle density is \<open>tpdm_corr\<close> (holding \<open>t\<close> in the
  virtual-virtual-occupied-occupied block, its four-leg transpose in the
  occupied-occupied-virtual-virtual block and zero in all other blocks) plus the
  antisymmetrized outer product of \<open>opdm_corr\<close> with \<open>opdm_ref\<close> (four signed terms) plus
  that of \<open>opdm_ref\<close> with itself (two signed terms): the array the code builds is
  \<open>spec_tpdm\<close>.
\<close>

theorem C7_tpdm_formula:
  assumes "omp2_init nso nocc hao gao C0 = Inr s0"
    and "omp2_iterate nso nocc hao gao E_nuc k s0 = Inr s"
    and "update_t_amp nso nocc (fill_diagonal_0 (build_fock nocc (var_hmo s) (var_gmo s)))
           (diagonal (build_fock nocc (var_hmo s) (var_gmo s))) (var_gmo s) (var_t_amp s) = Inr t"
  shows "build_tpdm nocc (build_tpdm_corr nocc t (var_tpdm_corr s))
           (build_opdm_corr nso nocc t (var_opdm_corr s))
       = spec_tpdm nocc t (build_opdm_corr nso nocc t (var_opdm_corr s))"
proof -
  have "zero_blocks nocc s0"
    using assms(1) by (rule omp2_init_zero_blocks)
  then have "zero_blocks nocc s"
    using assms(2) by (rule omp2_iterate_zero_blocks)
  then have "build_tpdm_corr nocc t (var_tpdm_corr s) = spec_tpdm_corr nocc t"
    by (rule build_tpdm_corr_spec)
  then show ?thesis
    by (simp add: build_tpdm_def spec_tpdm_def antisymmetrize_4_def antisymmetrize_2_def
        outer_product_def fun_eq_iff)
qed

theorem C7_tpdm_formula_witness:
  "omp2_init 4 2 ex_hao ex_blk_gao mat_id = Inr ex_blk_s0
   \<and> omp2_iterate 4 2 ex_hao ex_blk_gao 0 (Suc 0) ex_blk_s0 = Inr ex_blk_s1
   \<and> (\<exists>t. update_t_amp 4 2 (fill_diagonal_0 (build_fock 2 (var_hmo ex_blk_s1) (var_gmo ex_blk_s1)))
              (diagonal (build_fock 2 (var_hmo ex_blk_s1) (var_gmo ex_blk_s1)))
              (var_gmo ex_blk_s1) (var_t_amp ex_blk_s1) = Inr t
          \<and> build_tpdm 2 (build_tpdm_corr 2 t (var_tpdm_corr ex_blk_s1))
               (build_opdm_corr 4 2 t (var_opdm_corr ex_blk_s1))
            = spec_tpdm 2 t (build_opdm_corr 4 2 t (var_opdm_corr ex_blk_s1))
          \<and> spec_tpdm 2 t (build_opdm_corr 4 2 t (var_opdm_corr ex_blk_s1)) 2 3 0 1 = - (1 / 8))"
proof -
  from ex_blk_s1_update obtain t where
    u: "update_t_amp 4 2 (fill_diagonal_0 (build_fock 2 (var_hmo ex_blk_s1) (var_gmo ex_blk_s1)))
              (diagonal (build_fock 2 (var_hmo ex_blk_s1) (var_gmo ex_blk_s1)))
              (var_gmo ex_blk_s1) (var_t_amp ex_blk_s1) = Inr t"
    and v: "t 0 1 0 1 = - (1 / 8)"
    by blast
  have "spec_tpdm 2 t oc 2 3 0 1 = t 0 1 0 1" for oc
    by (simp add: spec_tpdm_def spec_tpdm_corr_def antisymmetrize_4_def antisymmetrize_2_def
        outer_product_def opdm_ref_def)
  with v have "spec_tpdm 2 t (build_opdm_corr 4 2 t (var_opdm_corr ex_blk_s1)) 2 3 0 1 = - (1 / 8)"
    by simp
  with C7_tpdm_formula [OF ex_blk_init ex_blk_iterate u] ex_blk_init ex_blk_iterate u
  show ?thesis
    by blast
qed

subsection \<open>C8: a zero gradient rotates nothing\<close>

text \<open>
  C8. When the orbital gradient \<open>(F - F\<^sup>T)[v, o]\<close> of an iteration is zero, the rotation
  generator \<open>X\<close> is the zero matrix, the rotation operator \<open>U\<close> is the identity, and
  \<^verbatim>\<open>C = C.dot(U)\<close> leaves the coefficient matrix as it was (the iteration returning its
  arrays, that is, no denominator being zero).
\<close>

theorem C8_zero_gradient_no_rotation:
  assumes "omp2_init nso nocc hao gao C0 = Inr s0"
    and "omp2_iterate nso nocc hao gao E_nuc k s0 = Inr s"
    and "omp2_iteration nso nocc hao gao E_nuc s = Inr (s', loc)"
    and "\<forall>a\<in>{..<nso - nocc}. \<forall>i\<in>{..<nocc}. orbital_gradient nocc (loc_F loc) a i = 0"
    and "p < nso" "q < nso"
  shows "var_X s' p q = 0 \<and> loc_U loc p q = mat_id p q \<and> var_C s' p q = var_C s p q"
proof -
  have "zero_blocks nocc s0"
    using assms(1) by (rule omp2_init_zero_blocks)
  then have "zero_blocks nocc s"
    using assms(2) by (rule omp2_iterate_zero_blocks)
  then show ?thesis
    using assms(3-6) by (rule zero_gradient_step)
qed

theorem C8_zero_gradient_no_rotation_witness:
  "omp2_init 4 2 ex_hao ex_blk_gao mat_id = Inr ex_blk_s0
   \<and> omp2_iterate 4 2 ex_hao ex_blk_gao 0 0 ex_blk_s0 = Inr ex_blk_s0
   \<and> (\<exists>s' loc. omp2_iteration 4 2 ex_hao ex_blk_gao 0 ex_blk_s0 = Inr (s', loc)
         \<and> var_t_amp s' 0 1 0 1 = - (1 / 8)
         \<and> orbital_gradient 2 (loc_F loc) 0 0 = 0 \<and> orbital_gradient 2 (loc_F loc) 0 1 = 0
         \<and> orbital_gradient 2 (loc_F loc) 1 0 = 0 \<and> orbital_gradient 2 (loc_F loc) 1 1 = 0
         \<and> var_X s' 2 0 = 0 \<and> var_X s' 3 1 = 0
         \<and> loc_U loc 2 2 = 1 \<and> loc_U loc 2 0 = 0
         \<and> var_C s' 2 3 = 0 \<and> var_C s' 1 1 = 1)"
proof -
  have i: "omp2_iterate 4 2 ex_hao ex_blk_gao 0 0 ex_blk_s0 = Inr ex_blk_s0"
    by simp
  obtain s' loc where st: "omp2_iteration 4 2 ex_hao ex_blk_gao 0 ex_blk_s0 = Inr (s', loc)"
    using omp2_iteration_returns [OF ex_blk_den_nonzero ex_blk_den_X_nonzero] by blast
  note it = ex_blk_iteration [OF st]
  have g: "orbital_gradient 2 (loc_F loc) a i = 0" if "a < 2" "i < 2" for a i
    unfolding it(2) using that by (rule ex_blk_gradient)
  then have G: "\<forall>a\<in>{..<4 - 2}. \<forall>i\<in>{..<2}. orbital_gradient 2 (loc_F loc) a i = 0"
    by simp
  have t: "var_t_amp s' 0 1 0 1 = - (1 / 8)"
    unfolding it(1) by (simp add: ex_blk_t_val)
  note th = C8_zero_gradient_no_rotation [OF ex_blk_init i st G]
  have C: "var_C ex_blk_s0 = mat_id"
    by (simp add: ex_blk_s0_def)
  from th [of 2 0] th [of 3 1] th [of 2 2] th [of 2 3] th [of 1 1]
  have "var_X s' 2 0 = 0" "var_X s' 3 1 = 0" "loc_U loc 2 2 = 1" "loc_U loc 2 0 = 0"
    "var_C s' 2 3 = 0" "var_C s' 1 1 = 1"
    by (simp_all add: C mat_id_def)
  with ex_blk_init i st t g [of 0 0] g [of 0 1] g [of 1 0] g [of 1 1] show ?thesis
    by (intro conjI exI [of _ s'] exI [of _ loc]) simp_all
qed

subsection \<open>C9: the one-particle density is symmetric\<close>

text \<open>
  C9. In every iteration the one-particle density \<^verbatim>\<open>opdm = opdm_corr + opdm_ref\<close> is
  symmetric: \<open>opdm[p,q] = opdm[q,p]\<close>. The amplitude array of the iteration has its pair
  antisymmetries (the input \<open>gao\<close> having them), which makes both correlation blocks
  symmetric; the other blocks of \<^verbatim>\<open>opdm_corr\<close> are the zeros of \<^verbatim>\<open>np.zeros\<close>.
\<close>

theorem C9_opdm_symmetric:
  assumes "antisym_below nso gao"
    and "omp2_init nso nocc hao gao C0 = Inr s0"
    and "omp2_iterate nso nocc hao gao E_nuc k s0 = Inr s"
    and "update_t_amp nso nocc (fill_diagonal_0 (build_fock nocc (var_hmo s) (var_gmo s)))
           (diagonal (build_fock nocc (var_hmo s) (var_gmo s))) (var_gmo s) (var_t_amp s) = Inr t"
  shows "build_opdm nocc (build_opdm_corr nso nocc t (var_opdm_corr s)) p q
       = build_opdm nocc (build_opdm_corr nso nocc t (var_opdm_corr s)) q p"
proof -
  have "omp2_inv s0"
    using assms(1,2) by (rule omp2_init_inv)
  with assms(1) have "omp2_inv s"
    using assms(3) by (rule omp2_iterate_inv)
  then have "antisym (var_gmo s)" "antisym (var_t_amp s)"
    by (simp_all add: omp2_inv_def)
  then have t: "antisym t"
    using assms(4) by (rule update_t_amp_antisym)
  have "zero_blocks nocc s0"
    using assms(2) by (rule omp2_init_zero_blocks)
  then have "zero_blocks nocc s"
    using assms(3) by (rule omp2_iterate_zero_blocks)
  then have "\<forall>p q. \<not> (p < nocc \<and> q < nocc) \<and> \<not> (nocc \<le> p \<and> nocc \<le> q) \<longrightarrow> var_opdm_corr s p q = 0"
    by (simp add: zero_blocks_def)
  with t have "build_opdm_corr nso nocc t (var_opdm_corr s) p q
      = build_opdm_corr nso nocc t (var_opdm_corr s) q p"
    by (rule build_opdm_corr_sym)
  then show ?thesis
    by (simp add: build_opdm_def opdm_ref_sym [of nocc p q])
qed

theorem C9_opdm_symmetric_witness:
  "antisym_below 4 ex_blk_gao
   \<and> omp2_init 4 2 ex_hao ex_blk_gao mat_id = Inr ex_blk_s0
   \<and> omp2_iterate 4 2 ex_hao ex_blk_gao 0 (Suc 0) ex_blk_s0 = Inr ex_blk_s1
   \<and> (\<exists>t. update_t_amp 4 2 (fill_diagonal_0 (build_fock 2 (var_hmo ex_blk_s1) (var_gmo ex_blk_s1)))
              (diagonal (build_fock 2 (var_hmo ex_blk_s1) (var_gmo ex_blk_s1)))
              (var_gmo ex_blk_s1) (var_t_amp ex_blk_s1) = Inr t
          \<and> build_opdm 2 (build_opdm_corr 4 2 t (var_opdm_corr ex_blk_s1)) 2 3
            = build_opdm 2 (build_opdm_corr 4 2 t (var_opdm_corr ex_blk_s1)) 3 2)"
proof -
  from ex_blk_s1_update obtain t where
    u: "update_t_amp 4 2 (fill_diagonal_0 (build_fock 2 (var_hmo ex_blk_s1) (var_gmo ex_blk_s1)))
              (diagonal (build_fock 2 (var_hmo ex_blk_s1) (var_gmo ex_blk_s1)))
              (var_gmo ex_blk_s1) (var_t_amp ex_blk_s1) = Inr t"
    by blast
  note a = ex_blk_gao_antisym_below [of 4]
  from C9_opdm_symmetric [OF a ex_blk_init ex_blk_iterate u, of 2 3] a ex_blk_init ex_blk_iterate u
  show ?thesis
    by blast
qed

subsection \<open>C10: the first update gives the MP2 amplitudes\<close>

text \<open>
  C10. In the first iteration the amplitude array is still the zero array of
  \<^verbatim>\<open>np.zeros\<close>, both \<open>fprime\<close> contractions vanish, and the update returns the
  virtual-virtual-occupied-occupied block of \<^verbatim>\<open>gmo\<close> divided entry by entry by the
  orbital-energy denominator (no denominator being zero).
\<close>

theorem C10_first_update_is_mp2:
  assumes "omp2_init nso nocc hao gao C0 = Inr s0"
    and "\<forall>a\<in>{..<nso - nocc}. \<forall>b\<in>{..<nso - nocc}. \<forall>i\<in>{..<nocc}. \<forall>j\<in>{..<nocc}.
           t_amp_denominator nocc (diagonal (build_fock nocc (var_hmo s0) (var_gmo s0))) a b i j \<noteq> 0"
  shows "t_amp_numerator nso nocc (fill_diagonal_0 (build_fock nocc (var_hmo s0) (var_gmo s0)))
           (var_gmo s0) (var_t_amp s0)
         = (\<lambda>a b i j. var_gmo s0 (nocc + a) (nocc + b) i j)
       \<and> update_t_amp nso nocc (fill_diagonal_0 (build_fock nocc (var_hmo s0) (var_gmo s0)))
           (diagonal (build_fock nocc (var_hmo s0) (var_gmo s0))) (var_gmo s0) (var_t_amp s0)
         = Inr (\<lambda>a b i j. var_gmo s0 (nocc + a) (nocc + b) i j
                 / t_amp_denominator nocc (diagonal (build_fock nocc (var_hmo s0) (var_gmo s0))) a b i j)"
proof -
  have "var_t_amp s0 = (\<lambda>a b i j. 0)"
    using assms(1) by (auto simp: omp2_init_def split: if_splits)
  then have "t_amp_numerator nso nocc fp (var_gmo s0) (var_t_amp s0)
      = (\<lambda>a b i j. var_gmo s0 (nocc + a) (nocc + b) i j)" for fp
    by (simp add: t_amp_numerator_def)
  then show ?thesis
    using update_t_amp_InrI [OF assms(2)] by simp
qed

theorem C10_first_update_is_mp2_witness:
  "omp2_init 4 2 ex_hao ex_gao mat_id = Inr ex_s0
   \<and> t_amp_denominator 2 (diagonal (build_fock 2 (var_hmo ex_s0) (var_gmo ex_s0))) 0 1 0 1 = - 24
   \<and> (\<exists>t. update_t_amp 4 2 (fill_diagonal_0 (build_fock 2 (var_hmo ex_s0) (var_gmo ex_s0)))
              (diagonal (build_fock 2 (var_hmo ex_s0) (var_gmo ex_s0)))
              (var_gmo ex_s0) (var_t_amp ex_s0) = Inr t
          \<and> t 0 1 0 1 = 1 / (- 24))"
proof -
  from C10_first_update_is_mp2 [OF ex_init ex_s0_den_nonzero]
  have "update_t_amp 4 2 (fill_diagonal_0 (build_fock 2 (var_hmo ex_s0) (var_gmo ex_s0)))
           (diagonal (build_fock 2 (var_hmo ex_s0) (var_gmo ex_s0))) (var_gmo ex_s0) (var_t_amp ex_s0)
         = Inr (\<lambda>a b i j. var_gmo ex_s0 (2 + a) (2 + b) i j
                 / t_amp_denominator 2 (diagonal (build_fock 2 (var_hmo ex_s0) (var_gmo ex_s0))) a b i j)"
    by blast
  moreover have "var_gmo ex_s0 (2 + 0) (2 + 1) 0 1
      / t_amp_denominator 2 (diagonal (build_fock 2 (var_hmo ex_s0) (var_gmo ex_s0))) 0 1 0 1
      = 1 / (- 24)"
    by (simp add: t_amp_denominator_def ex_s0_eps ex_s0_gmo ex_gao_def)
  moreover have "t_amp_denominator 2 (diagonal (build_fock 2 (var_hmo ex_s0) (var_gmo ex_s0))) 0 1 0 1
      = - 24"
    by (simp add: t_amp_denominator_def ex_s0_eps)
  ultimately show ?thesis
    using ex_init by blast
qed

end
